theory Spec2Isabelle
  imports Complex_Main
begin

section \<open>JavaScript values used by the ledger code\<close>

text \<open>
  A JavaScript number is an IEEE 754 double: \<open>NaN\<close>, one of the two infinities, or a
  finite double. The finite doubles are the reals \<open>m * 2^e\<close> with \<open>|m| < 2^53\<close> and
  \<open>-1074 \<le> e \<le> 971\<close>; \<open>is_double\<close> says so with \<open>k = e + 1074\<close>. The negative zero
  is not told apart from zero: the ledger code reads an amount through its truthiness,
  through \<open>> 0\<close>, \<open>Math.abs\<close>, \<open>isNaN\<close> and \<open>+\<close>, and prints it, and none of these
  distinguishes the two zeros, while a sum of amounts read with \<open>Number(x || 0)\<close> is
  never the negative zero.
\<close>

definition is_double :: "real \<Rightarrow> bool" where
  "is_double x =
     (\<exists>m::int. \<exists>k::nat. \<bar>m\<bar> < 2 ^ 53 \<and> k \<le> 2045 \<and> x = of_int m * 2 ^ k / 2 ^ 1074)"

typedef double = "{x. is_double x}"
  morphisms val Abs_double
proof
  have "is_double 0"
    unfolding is_double_def by (rule exI [of _ 0], rule exI [of _ 0]) simp
  then show "0 \<in> {x. is_double x}" by simp
qed

setup_lifting type_definition_double

text \<open>
  Zero, one, the order and the absolute value of doubles are those of the reals; all
  four are exact in IEEE arithmetic.
\<close>

instantiation double :: "{zero, one, abs, linorder}"
begin

lift_definition zero_double :: double is 0
  unfolding is_double_def by (rule exI [of _ 0], rule exI [of _ 0]) simp

lift_definition one_double :: double is 1
  unfolding is_double_def by (rule exI [of _ 1], rule exI [of _ 1074]) simp

lift_definition abs_double :: "double \<Rightarrow> double" is abs
proof -
  fix x :: real
  assume "is_double x"
  then obtain m :: int and k :: nat
    where m: "\<bar>m\<bar> < 2 ^ 53" "k \<le> 2045" "x = of_int m * 2 ^ k / 2 ^ 1074"
    unfolding is_double_def by blast
  have "\<bar>x\<bar> = of_int \<bar>m\<bar> * 2 ^ k / 2 ^ 1074" by (simp add: m(3) abs_mult)
  moreover have "\<bar>\<bar>m\<bar>\<bar> < 2 ^ 53" using m(1) by simp
  ultimately show "is_double \<bar>x\<bar>" unfolding is_double_def using m(2) by blast
qed

lift_definition less_eq_double :: "double \<Rightarrow> double \<Rightarrow> bool" is "(\<le>)" .

lift_definition less_double :: "double \<Rightarrow> double \<Rightarrow> bool" is "(<)" .

instance
  by standard (transfer; auto)+

end

text \<open>
  Rounding a real to the nearest double, as every arithmetic operation of the machine
  does with its exact result (round to nearest, ties to the even significand).
  \<open>expo x\<close> is the binary exponent of \<open>x\<close>, \<open>ulp_exp x\<close> the exponent of the spacing of
  the doubles around \<open>x\<close> (53 significant bits, and \<open>2^-1074\<close> in the subnormal range),
  \<open>rne\<close> rounds to the nearest integer with ties to the even one.
\<close>

definition expo :: "real \<Rightarrow> int" where
  "expo x = \<lfloor>log 2 \<bar>x\<bar>\<rfloor>"

definition ulp_exp :: "real \<Rightarrow> int" where
  "ulp_exp x = max (expo x - 52) (- 1074)"

definition rne :: "real \<Rightarrow> int" where
  "rne y =
     (let f = \<lfloor>y\<rfloor>
      in if y - of_int f < 1 / 2 then f
         else if 1 / 2 < y - of_int f then f + 1
         else if even f then f else f + 1)"

definition round_nearest :: "real \<Rightarrow> real" where
  "round_nearest x =
     (if x = 0 then 0 else of_int (rne (x / 2 powi ulp_exp x)) * 2 powi ulp_exp x)"

text \<open>
  The rounding leaves the range of the doubles when it reaches \<open>2^1024\<close>, the first power
  of two beyond the largest double. \<open>dbl x\<close> is the double nearest to \<open>x\<close>, the value of
  a numeric literal; it is used for reals within the range.
\<close>

definition overflow_bound :: real where
  "overflow_bound = 2 ^ 1024"

definition dbl :: "real \<Rightarrow> double" where
  "dbl x =
     (if \<bar>round_nearest x\<bar> < overflow_bound then Abs_double (round_nearest x) else 0)"

datatype jsnum = NaN | PInf | NInf | Fin double

text \<open>
  The number that an operation with the exact result \<open>x\<close> returns: the nearest double,
  or an infinity when the rounding leaves the range.
\<close>

definition to_num :: "real \<Rightarrow> jsnum" where
  "to_num x =
     (if overflow_bound \<le> round_nearest x then PInf
      else if round_nearest x \<le> - overflow_bound then NInf
      else Fin (dbl x))"

text \<open>Truthiness of a number: \<open>0\<close> and \<open>NaN\<close> are falsy.\<close>

fun num_truthy :: "jsnum \<Rightarrow> bool" where
  "num_truthy NaN = False"
| "num_truthy PInf = True"
| "num_truthy NInf = True"
| "num_truthy (Fin r) = (r \<noteq> 0)"

text \<open>\<open>Number(x || 0)\<close> for a number \<open>x\<close>.\<close>

definition num_or_zero :: "jsnum \<Rightarrow> jsnum" where
  "num_or_zero x = (if num_truthy x then x else Fin 0)"

text \<open>
  \<open>a + b\<close> on numbers: the exact sum of two finite doubles is rounded to the nearest
  double, \<open>NaN\<close> absorbs, infinities of opposite signs give \<open>NaN\<close>, and an infinity
  absorbs every other number.
\<close>

fun num_add :: "jsnum \<Rightarrow> jsnum \<Rightarrow> jsnum" where
  "num_add (Fin a) (Fin b) = to_num (val a + val b)"
| "num_add NaN y = NaN"
| "num_add x NaN = NaN"
| "num_add PInf NInf = NaN"
| "num_add NInf PInf = NaN"
| "num_add PInf y = PInf"
| "num_add x PInf = PInf"
| "num_add NInf y = NInf"
| "num_add x NInf = NInf"

text \<open>\<open>x > 0\<close>: every comparison with \<open>NaN\<close> is false.\<close>

fun num_gt0 :: "jsnum \<Rightarrow> bool" where
  "num_gt0 NaN = False"
| "num_gt0 PInf = True"
| "num_gt0 NInf = False"
| "num_gt0 (Fin r) = (0 < r)"

text \<open>Decimal digits of a natural number, as template literals and \<open>toFixed\<close> print them.\<close>

definition digit_char :: "nat \<Rightarrow> char" where
  "digit_char d = ''0123456789'' ! d"

fun string_of_nat :: "nat \<Rightarrow> string" where
  "string_of_nat n =
     (if n < 10 then [digit_char n]
      else string_of_nat (n div 10) @ [digit_char (n mod 10)])"

declare string_of_nat.simps [simp del]

text \<open>
  \<open>x.toFixed(2)\<close>: the sign, then the integer \<open>n\<close> nearest to \<open>100 * |x|\<close> (the larger
  one on a tie) printed with a point before its last two digits. From \<open>10^21\<close> on
  JavaScript prints the shortest decimal that denotes the double instead; the doubles
  of that size are whole numbers, so two of them print the same there exactly when
  they are equal, which is when they print the same here, and a number below \<open>10^21\<close>
  prints like none of them, there as here.
\<close>

definition hundredths :: "real \<Rightarrow> nat" where
  "hundredths r = nat \<lfloor>\<bar>r\<bar> * 100 + 1 / 2\<rfloor>"

definition toFixed2 :: "jsnum \<Rightarrow> string" where
  "toFixed2 x =
     (case x of
        NaN \<Rightarrow> ''NaN''
      | PInf \<Rightarrow> ''Infinity''
      | NInf \<Rightarrow> ''-Infinity''
      | Fin d \<Rightarrow>
          (let r = val d
           in (if r < 0 then ''-'' else '''') @ string_of_nat (hundredths r div 100) @ ''.'' @
              [digit_char (hundredths r mod 100 div 10), digit_char (hundredths r mod 10)]))"

text \<open>The number that \<open>toFixed2\<close> prints: \<open>r\<close> rounded to two decimal places.\<close>

definition round2 :: "real \<Rightarrow> real" where
  "round2 r = (if r < 0 then - 1 else 1) * real (hundredths r) / 100"

text \<open>Reading a digit string back; used only to show that \<open>string_of_nat\<close> loses nothing.\<close>

definition digit_val :: "char \<Rightarrow> nat" where
  "digit_val c = of_char c - 48"

definition nat_of_string :: "string \<Rightarrow> nat" where
  "nat_of_string s = foldl (\<lambda>a c. 10 * a + digit_val c) 0 s"

section \<open>Data model (types.ts)\<close>

text \<open>
  The interfaces of \<open>types.ts\<close> as records. Several interfaces have fields of the same
  name (\<open>id\<close>, \<open>date\<close>, \<open>description\<close>), so every field carries a prefix for its
  interface. An optional field is an \<open>option\<close>.
\<close>

datatype tx_type = Debit | Credit

datatype recon_status = Posted | Unposted

record Transaction =
  tx_id :: string
  tx_date :: string
  tx_description :: string
  tx_amount :: jsnum
  tx_type :: tx_type
  tx_reconciliationStatus :: "recon_status option"
  tx_notes :: "string option"

record Account =
  acc_id :: string
  acc_code :: string
  acc_name :: string
  acc_type :: string
  acc_isBankAccount :: "bool option"

record ReconciledTransaction =
  rt_id :: string
  rt_period :: string
  rt_bankAccountId :: string
  rt_journalEntryId :: string
  rt_originalDate :: string
  rt_originalDescription :: string
  rt_originalAmount :: jsnum
  rt_originalType :: tx_type

record JournalLine =
  ln_id :: string
  ln_accountId :: string
  ln_debit :: jsnum
  ln_credit :: jsnum
  ln_description :: "string option"

record JournalEntry =
  je_id :: string
  je_date :: string
  je_description :: string
  je_refNo :: "string option"
  je_lines :: "JournalLine list"
  je_notes :: "string option"

section \<open>Journal entry builder (JournalEntryModal, AiJournalEntryModal)\<close>

text \<open>The accumulator of the \<open>totals\<close> reduction.\<close>

record Totals =
  t_debit :: jsnum
  t_credit :: jsnum

definition totals :: "JournalLine list \<Rightarrow> Totals" where
  "totals lns =
     foldl (\<lambda>acc line.
        \<lparr>t_debit = num_add (t_debit acc) (num_or_zero (ln_debit line)),
         t_credit = num_add (t_credit acc) (num_or_zero (ln_credit line))\<rparr>)
       \<lparr>t_debit = Fin 0, t_credit = Fin 0\<rparr> lns"

definition isBalanced :: "JournalLine list \<Rightarrow> bool" where
  "isBalanced lns =
     (toFixed2 (t_debit (totals lns)) = toFixed2 (t_credit (totals lns))
      \<and> num_gt0 (t_debit (totals lns)))"

text \<open>
  \<open>JournalEntryModal.handleSave\<close>: \<open>Inl\<close> is the alert shown when the entry is refused,
  \<open>Inr\<close> the entry handed to \<open>onSave\<close>.
\<close>

definition handleSave :: "JournalEntry \<Rightarrow> string + JournalEntry" where
  "handleSave entry =
     (if \<not> isBalanced (je_lines entry)
      then Inl ''Journal entry must be balanced (debits must equal credits).''
      else if list_ex (\<lambda>l. ln_accountId l = []) (je_lines entry)
      then Inl ''All journal lines must have an account selected.''
      else Inr entry)"

text \<open>
  \<open>AiJournalEntryModal.handleSave\<close>: the modal's entry is \<open>null\<close> until the suggestion has
  arrived, and its totals are then both \<open>0\<close>. \<open>Inr\<close> carries the two arguments of
  \<open>onSave\<close>.
\<close>

definition ai_totals :: "JournalEntry option \<Rightarrow> Totals" where
  "ai_totals entry =
     (case entry of
        None \<Rightarrow> \<lparr>t_debit = Fin 0, t_credit = Fin 0\<rparr>
      | Some e \<Rightarrow> totals (je_lines e))"

definition ai_isBalanced :: "JournalEntry option \<Rightarrow> bool" where
  "ai_isBalanced entry =
     (toFixed2 (t_debit (ai_totals entry)) = toFixed2 (t_credit (ai_totals entry))
      \<and> num_gt0 (t_debit (ai_totals entry)))"

definition ai_handleSave ::
  "JournalEntry option \<Rightarrow> Transaction list \<Rightarrow> string + (JournalEntry \<times> Transaction list)" where
  "ai_handleSave entry selectedTransactions =
     (case entry of
        None \<Rightarrow> Inl ''Journal entry must be balanced.''
      | Some e \<Rightarrow>
          if \<not> ai_isBalanced entry then Inl ''Journal entry must be balanced.''
          else if list_ex (\<lambda>l. ln_accountId l = []) (je_lines e)
          then Inl ''All lines must have an account.''
          else Inr (e, selectedTransactions))"


text \<open>
  \<open>handleUpdateLine(lineId, field, value)\<close> of both modals. The pair of field and value
  is one value of \<open>line_update\<close>; the amount inputs pass \<open>parseFloat\<close> of the typed text.
\<close>

datatype line_update =
    Set_id string
  | Set_accountId string
  | Set_debit jsnum
  | Set_credit jsnum
  | Set_description "string option"

fun updatedLine :: "line_update \<Rightarrow> JournalLine \<Rightarrow> JournalLine" where
  "updatedLine (Set_id v) line = line\<lparr>ln_id := v\<rparr>"
| "updatedLine (Set_accountId v) line = line\<lparr>ln_accountId := v\<rparr>"
| "updatedLine (Set_debit v) line =
     (if num_gt0 v then line\<lparr>ln_debit := v, ln_credit := Fin 0\<rparr> else line\<lparr>ln_debit := v\<rparr>)"
| "updatedLine (Set_credit v) line =
     (if num_gt0 v then line\<lparr>ln_credit := v, ln_debit := Fin 0\<rparr> else line\<lparr>ln_credit := v\<rparr>)"
| "updatedLine (Set_description v) line = line\<lparr>ln_description := v\<rparr>"

definition handleUpdateLine :: "string \<Rightarrow> line_update \<Rightarrow> JournalEntry \<Rightarrow> JournalEntry" where
  "handleUpdateLine lineId upd entry =
     entry\<lparr>je_lines :=
       map (\<lambda>line. if ln_id line \<noteq> lineId then line else updatedLine upd line) (je_lines entry)\<rparr>"

definition ai_handleUpdateLine ::
  "string \<Rightarrow> line_update \<Rightarrow> JournalEntry option \<Rightarrow> JournalEntry option" where
  "ai_handleUpdateLine lineId upd entry =
     (case entry of None \<Rightarrow> None | Some e \<Rightarrow> Some (handleUpdateLine lineId upd e))"

text \<open>
  Values of type \<open>any\<close>, as \<open>safeParseJson\<close> returns them. An object or array is opaque:
  only the built-ins look inside it.
\<close>

datatype jsval = JUndefined | JNull | JBool bool | JNum jsnum | JStr string | JObj nat

fun truthy :: "jsval \<Rightarrow> bool" where
  "truthy JUndefined = False"
| "truthy JNull = False"
| "truthy (JBool b) = b"
| "truthy (JNum n) = num_truthy n"
| "truthy (JStr s) = (s \<noteq> [])"
| "truthy (JObj k) = True"

text \<open>
  The built-ins of the JavaScript runtime whose results the model does not compute are
  parameters: \<open>parseFloat\<close>, the printing of a finite number and of an object, the
  conversion of a string or an object to a number, \<open>JSON.stringify\<close> (\<open>None\<close> when it
  throws), \<open>new Date(v).toISOString().split('T')[0]\<close> (\<open>None\<close> when it throws) and the
  same for the current date.
\<close>

record JsEnv =
  js_parseFloat :: "string \<Rightarrow> jsnum"
  js_numToString :: "double \<Rightarrow> string"
  js_objToString :: "nat \<Rightarrow> string"
  js_strToNumber :: "string \<Rightarrow> jsnum"
  js_objToNumber :: "nat \<Rightarrow> jsnum"
  js_stringify :: "jsval \<Rightarrow> string option"
  js_dateIso :: "jsval \<Rightarrow> string option"
  js_today :: string

text \<open>\<open>String(v)\<close>, also the conversion inside a template literal.\<close>

fun js_String :: "JsEnv \<Rightarrow> jsval \<Rightarrow> string" where
  "js_String env JUndefined = ''undefined''"
| "js_String env JNull = ''null''"
| "js_String env (JBool b) = (if b then ''true'' else ''false'')"
| "js_String env (JNum NaN) = ''NaN''"
| "js_String env (JNum PInf) = ''Infinity''"
| "js_String env (JNum NInf) = ''-Infinity''"
| "js_String env (JNum (Fin r)) = js_numToString env r"
| "js_String env (JStr s) = s"
| "js_String env (JObj k) = js_objToString env k"

text \<open>\<open>Number(v)\<close>.\<close>

fun js_Number :: "JsEnv \<Rightarrow> jsval \<Rightarrow> jsnum" where
  "js_Number env JUndefined = NaN"
| "js_Number env JNull = Fin 0"
| "js_Number env (JBool b) = (if b then Fin 1 else Fin 0)"
| "js_Number env (JNum n) = n"
| "js_Number env (JStr s) = js_strToNumber env s"
| "js_Number env (JObj k) = js_objToNumber env k"

text \<open>\<open>Number(v || 0)\<close> for a value of type \<open>any\<close>.\<close>

definition number_or_zero :: "JsEnv \<Rightarrow> jsval \<Rightarrow> jsnum" where
  "number_or_zero env v = js_Number env (if truthy v then v else JNum (Fin 0))"

text \<open>
  The line mapping of \<open>handleGenerateFromMemo\<close>, from the parsed suggestion to the entry:
  \<open>Inl\<close> is the message put into \<open>aiError\<close>, with the entry left as it was. The date and
  description of the suggestion are taken as strings (absent is the empty string, falsy
  as well); \<open>ai_lines\<close> is \<open>None\<close> when \<open>lines\<close> is not an array. \<open>uuid i\<close> is the result
  of the \<open>i\<close>-th call of \<open>generateUUID\<close>.
\<close>

record AiLine =
  ai_accountId :: string
  ai_debit :: jsval
  ai_credit :: jsval

record AiResult =
  ai_date :: string
  ai_description :: string
  ai_lines :: "AiLine list option"

definition mapAiLines :: "JsEnv \<Rightarrow> (nat \<Rightarrow> string) \<Rightarrow> AiLine list \<Rightarrow> JournalLine list" where
  "mapAiLines env uuid lns =
     map (\<lambda>(i, line).
        \<lparr>ln_id = uuid i, ln_accountId = ai_accountId line,
         ln_debit = number_or_zero env (ai_debit line),
         ln_credit = number_or_zero env (ai_credit line),
         ln_description = None\<rparr>)
       (enumerate 0 lns)"

definition handleGenerateFromMemo ::
  "JsEnv \<Rightarrow> (nat \<Rightarrow> string) \<Rightarrow> AiResult \<Rightarrow> JournalEntry \<Rightarrow> string + JournalEntry" where
  "handleGenerateFromMemo env uuid aiResult entry =
     (case ai_lines aiResult of
        None \<Rightarrow> Inl ''AI returned an incomplete or malformed journal entry object.''
      | Some lns \<Rightarrow>
          if ai_date aiResult = [] \<or> ai_description aiResult = [] \<or> lns = []
          then Inl ''AI returned an incomplete or malformed journal entry object.''
          else Inr (entry\<lparr>je_date := ai_date aiResult,
                          je_description := ai_description aiResult,
                          je_lines := mapAiLines env uuid lns\<rparr>))"

section \<open>Chart of accounts import (ChartOfAccountsModal)\<close>

text \<open>\<open>String.prototype.trim\<close> on the white space that fits a \<open>char\<close>.\<close>

definition is_space :: "char \<Rightarrow> bool" where
  "is_space c = (of_char c \<in> {9, 10, 11, 12, 13, 32, 160 :: nat})"

definition trim :: "string \<Rightarrow> string" where
  "trim s = rev (dropWhile is_space (rev (dropWhile is_space s)))"

text \<open>
  \<open>parseAndImportData\<close>: a cell is a string or a number. \<open>now i\<close> is what \<open>Date.now()\<close>
  returns while row \<open>i\<close> of the filtered rows is mapped. The result is the modal's new
  account list and the text of the alert.
\<close>

datatype cell = CStr string | CNum jsnum

fun cell_val :: "cell \<Rightarrow> jsval" where
  "cell_val (CStr s) = JStr s"
| "cell_val (CNum n) = JNum n"

definition row_complete :: "cell list \<Rightarrow> bool" where
  "row_complete row =
     (3 \<le> length row \<and> truthy (cell_val (row ! 0)) \<and> truthy (cell_val (row ! 1))
      \<and> truthy (cell_val (row ! 2)))"

definition importedAccount :: "JsEnv \<Rightarrow> (nat \<Rightarrow> nat) \<Rightarrow> nat \<Rightarrow> cell list \<Rightarrow> Account" where
  "importedAccount env now index row =
     \<lparr>acc_id = ''imported-'' @ string_of_nat (now index) @ ''-'' @ string_of_nat index,
      acc_code = trim (js_String env (cell_val (row ! 0))),
      acc_name = trim (js_String env (cell_val (row ! 1))),
      acc_type = trim (js_String env (cell_val (row ! 2))),
      acc_isBankAccount = None\<rparr>"

definition importedAccounts :: "JsEnv \<Rightarrow> (nat \<Rightarrow> nat) \<Rightarrow> cell list list \<Rightarrow> Account list" where
  "importedAccounts env now data =
     map (\<lambda>(index, row). importedAccount env now index row)
       (enumerate 0 (filter row_complete data))"

definition uniqueImported ::
  "JsEnv \<Rightarrow> (nat \<Rightarrow> nat) \<Rightarrow> cell list list \<Rightarrow> Account list \<Rightarrow> Account list" where
  "uniqueImported env now data accs =
     filter (\<lambda>imp. \<not> list_ex (\<lambda>exist. acc_code exist = acc_code imp) accs)
       (importedAccounts env now data)"

definition parseAndImportData ::
  "JsEnv \<Rightarrow> (nat \<Rightarrow> nat) \<Rightarrow> cell list list \<Rightarrow> Account list \<Rightarrow> Account list \<times> string" where
  "parseAndImportData env now data accs =
     (accs @ uniqueImported env now data accs,
      string_of_nat (length (uniqueImported env now data accs)) @ '' new accounts imported.'')"

section \<open>Application state and reconciliation handlers (App)\<close>

text \<open>
  The \<open>useState\<close> cells of \<open>App\<close> that the handlers below read or write, as one record.
  A handler is a function from the state before the event to the state after it: React
  applies the updates a handler queues together, so no state in between is observable.
\<close>

record AppState =
  statementTransactions :: "Transaction list"
  accounts :: "Account list"
  journalEntries :: "JournalEntry list"
  reconciledTransactions :: "ReconciledTransaction list"
  activePeriod :: string
  selectedBankAccountId :: string
  selectedTx :: "string set"
  journalLinkedTx :: "Transaction option"
  editingJournal :: "JournalEntry option"
  isJournalModalOpen :: bool
  isAiJournalModalOpen :: bool
  isLoading :: bool
  error :: "string option"

definition UNCATEGORIZED_CODE :: string where
  "UNCATEGORIZED_CODE = ''0000''"

text \<open>The link record that the three posting paths build for a transaction.\<close>

definition newRecon :: "AppState \<Rightarrow> string \<Rightarrow> Transaction \<Rightarrow> ReconciledTransaction" where
  "newRecon s journalEntryId tx =
     \<lparr>rt_id = tx_id tx, rt_period = activePeriod s, rt_bankAccountId = selectedBankAccountId s,
      rt_journalEntryId = journalEntryId, rt_originalDate = tx_date tx,
      rt_originalDescription = tx_description tx, rt_originalAmount = tx_amount tx,
      rt_originalType = tx_type tx\<rparr>"

text \<open>\<open>prev.map(st => ids.has(st.id) ? {...st, reconciliationStatus: v} : st)\<close>.\<close>

definition setStatus :: "string set \<Rightarrow> recon_status \<Rightarrow> Transaction list \<Rightarrow> Transaction list" where
  "setStatus ids v sts =
     map (\<lambda>st. if tx_id st \<in> ids then st\<lparr>tx_reconciliationStatus := Some v\<rparr> else st) sts"

definition handleSaveJournal :: "JournalEntry \<Rightarrow> AppState \<Rightarrow> AppState" where
  "handleSaveJournal entry s =
     (let isEditing = list_ex (\<lambda>je. je_id je = je_id entry) (journalEntries s);
          s1 =
            (if isEditing
             then s\<lparr>journalEntries :=
                      map (\<lambda>je. if je_id je = je_id entry then entry else je) (journalEntries s)\<rparr>
             else
               (case journalLinkedTx s of
                  None \<Rightarrow> s\<lparr>journalEntries := journalEntries s @ [entry]\<rparr>
                | Some ltx \<Rightarrow>
                    if \<not> list_ex (\<lambda>rt. rt_id rt = tx_id ltx) (reconciledTransactions s)
                    then s\<lparr>journalEntries := journalEntries s @ [entry],
                           reconciledTransactions :=
                             reconciledTransactions s @ [newRecon s (je_id entry) ltx],
                           statementTransactions :=
                             setStatus {tx_id ltx} Posted (statementTransactions s)\<rparr>
                    else s\<lparr>journalEntries := journalEntries s @ [entry]\<rparr>))
      in s1\<lparr>isJournalModalOpen := False, editingJournal := None, journalLinkedTx := None,
             isAiJournalModalOpen := False\<rparr>)"

definition handleSaveAiJournal :: "JournalEntry \<Rightarrow> Transaction list \<Rightarrow> AppState \<Rightarrow> AppState" where
  "handleSaveAiJournal entry sourceTxs s =
     s\<lparr>journalEntries := journalEntries s @ [entry],
       reconciledTransactions :=
         reconciledTransactions s @ map (newRecon s (je_id entry)) sourceTxs,
       statementTransactions :=
         setStatus (set (map tx_id sourceTxs)) Posted (statementTransactions s),
       selectedTx := {},
       isAiJournalModalOpen := False\<rparr>"

text \<open>\<open>handleDeleteJournal\<close>; \<open>confirmed\<close> is the user's answer to \<open>confirm(...)\<close>.\<close>

definition handleDeleteJournal :: "bool \<Rightarrow> string \<Rightarrow> AppState \<Rightarrow> AppState" where
  "handleDeleteJournal confirmed jid s =
     (if confirmed then
        (let linkedReconTxs = filter (\<lambda>rt. rt_journalEntryId rt = jid) (reconciledTransactions s);
             s1 = s\<lparr>journalEntries := filter (\<lambda>je. je_id je \<noteq> jid) (journalEntries s)\<rparr>
         in if 0 < length linkedReconTxs
            then s1\<lparr>reconciledTransactions :=
                      filter (\<lambda>rt. rt_journalEntryId rt \<noteq> jid) (reconciledTransactions s),
                    statementTransactions :=
                      setStatus (set (map rt_id linkedReconTxs)) Unposted (statementTransactions s)\<rparr>
            else s1)
      else s)"

text \<open>
  \<open>handlePostToCashbook\<close>. \<open>uuid k\<close> is the result of the \<open>k\<close>-th call of \<open>generateUUID\<close>
  during the handler; each posted transaction draws three, the entry's id first. The
  \<open>forEach\<close> is a left fold over the two arrays it pushes to and the number of UUIDs
  drawn.
\<close>

definition newJournal :: "(nat \<Rightarrow> string) \<Rightarrow> nat \<Rightarrow> string \<Rightarrow> string \<Rightarrow> Transaction \<Rightarrow> JournalEntry" where
  "newJournal uuid k bankId uncategorizedId tx =
     \<lparr>je_id = uuid k, je_date = tx_date tx, je_description = tx_description tx,
      je_refNo = None,
      je_lines =
        [\<lparr>ln_id = uuid (k + 1), ln_accountId = bankId,
          ln_debit = (if tx_type tx = Credit then tx_amount tx else Fin 0),
          ln_credit = (if tx_type tx = Debit then tx_amount tx else Fin 0),
          ln_description = None\<rparr>,
         \<lparr>ln_id = uuid (k + 2), ln_accountId = uncategorizedId,
          ln_debit = (if tx_type tx = Debit then tx_amount tx else Fin 0),
          ln_credit = (if tx_type tx = Credit then tx_amount tx else Fin 0),
          ln_description = None\<rparr>],
      je_notes = None\<rparr>"

definition postEach ::
  "(nat \<Rightarrow> string) \<Rightarrow> AppState \<Rightarrow> string \<Rightarrow>
   JournalEntry list \<times> ReconciledTransaction list \<times> nat \<Rightarrow> Transaction \<Rightarrow>
   JournalEntry list \<times> ReconciledTransaction list \<times> nat" where
  "postEach uuid s uncategorizedId acc tx =
     (case acc of (newJournalEntries, newReconciledTxs, k) \<Rightarrow>
        if tx_reconciliationStatus tx = Some Posted then acc
        else
          (newJournalEntries @ [newJournal uuid k (selectedBankAccountId s) uncategorizedId tx],
           newReconciledTxs @ [newRecon s (uuid k) tx],
           k + 3))"

definition handlePostToCashbook :: "(nat \<Rightarrow> string) \<Rightarrow> Transaction list \<Rightarrow> AppState \<Rightarrow> AppState" where
  "handlePostToCashbook uuid txsToPost s =
     (if txsToPost = [] \<or> selectedBankAccountId s = [] then s
      else
        (case find (\<lambda>a. acc_code a = UNCATEGORIZED_CODE) (accounts s) of
           None \<Rightarrow> s\<lparr>error := Some ''Uncategorized suspense account not found!''\<rparr>
         | Some uncategorizedAccount \<Rightarrow>
             (case foldl (postEach uuid s (acc_id uncategorizedAccount)) ([], [], 0) txsToPost of
                (newJournalEntries, newReconciledTxs, k) \<Rightarrow>
                  s\<lparr>journalEntries := journalEntries s @ newJournalEntries,
                    reconciledTransactions := reconciledTransactions s @ newReconciledTxs,
                    statementTransactions :=
                      setStatus (set (map rt_id newReconciledTxs)) Posted (statementTransactions s),
                    selectedTx := {}\<rparr>)))"

text \<open>
  \<open>processAndSetTransactions\<close>. An element of the parsed array is \<open>None\<close> when it is
  \<open>null\<close> or \<open>undefined\<close> (reading a property of it throws a \<open>TypeError\<close>, which leaves the
  handler before any state is set); otherwise it is known by the four properties read.
\<close>

record ParsedTx =
  p_date :: jsval
  p_description :: jsval
  p_debit :: jsval
  p_credit :: jsval

datatype js_error = TypeError

fun num_abs :: "jsnum \<Rightarrow> jsnum" where
  "num_abs NaN = NaN"
| "num_abs PInf = PInf"
| "num_abs NInf = PInf"
| "num_abs (Fin r) = Fin \<bar>r\<bar>"

definition is_digit :: "char \<Rightarrow> bool" where
  "is_digit c = (c \<in> set ''0123456789'')"

text \<open>\<open>s.match(/^\d{4}-\d{2}-\d{2}/)\<close> finds a match.\<close>

fun date_match :: "string \<Rightarrow> bool" where
  "date_match (y1 # y2 # y3 # y4 # d1 # m1 # m2 # d2 # t1 # t2 # rest) =
     (is_digit y1 \<and> is_digit y2 \<and> is_digit y3 \<and> is_digit y4 \<and> d1 = CHR ''-'' \<and>
      is_digit m1 \<and> is_digit m2 \<and> d2 = CHR ''-'' \<and> is_digit t1 \<and> is_digit t2)"
| "date_match _ = False"

definition sanitize_amount :: "JsEnv \<Rightarrow> ParsedTx \<Rightarrow> jsnum" where
  "sanitize_amount env tx =
     num_abs (js_parseFloat env (js_String env
       (if truthy (p_debit tx) then p_debit tx
        else if truthy (p_credit tx) then p_credit tx
        else JNum (Fin 0))))"

definition sanitize_type :: "JsEnv \<Rightarrow> ParsedTx \<Rightarrow> tx_type" where
  "sanitize_type env tx =
     (if truthy (p_debit tx) \<and> num_gt0 (sanitize_amount env tx) then Debit else Credit)"

definition sanitize_date :: "JsEnv \<Rightarrow> ParsedTx \<Rightarrow> string" where
  "sanitize_date env tx =
     (if truthy (p_date tx) \<and> (case p_date tx of JStr d \<Rightarrow> date_match d | _ \<Rightarrow> False)
      then (case p_date tx of JStr d \<Rightarrow> d | _ \<Rightarrow> [])
      else if truthy (p_date tx)
      then (case js_dateIso env (p_date tx) of Some d \<Rightarrow> d | None \<Rightarrow> js_today env)
      else js_today env)"

definition sanitize_description :: "JsEnv \<Rightarrow> ParsedTx \<Rightarrow> string" where
  "sanitize_description env tx =
     (case p_description tx of
        JStr d \<Rightarrow> trim d
      | JNull \<Rightarrow> ''N/A''
      | JUndefined \<Rightarrow> ''N/A''
      | v \<Rightarrow> (case js_stringify env v of Some d \<Rightarrow> d | None \<Rightarrow> ''[Unserializable Content]''))"

definition type_string :: "tx_type \<Rightarrow> string" where
  "type_string t = (case t of Debit \<Rightarrow> ''debit'' | Credit \<Rightarrow> ''credit'')"

definition make_id :: "JsEnv \<Rightarrow> string \<Rightarrow> string \<Rightarrow> jsnum \<Rightarrow> tx_type \<Rightarrow> string" where
  "make_id env date description amount type =
     date @ ''-'' @ description @ ''-'' @ js_String env (JNum amount) @ ''-'' @ type_string type"

definition newTransaction :: "JsEnv \<Rightarrow> string set \<Rightarrow> ParsedTx \<Rightarrow> Transaction" where
  "newTransaction env reconciledIds tx =
     (let amount = sanitize_amount env tx;
          type = sanitize_type env tx;
          date = sanitize_date env tx;
          description = sanitize_description env tx;
          id = make_id env date description amount type
      in \<lparr>tx_id = id, tx_date = date, tx_description = description, tx_amount = amount,
          tx_type = type,
          tx_reconciliationStatus = Some (if id \<in> reconciledIds then Posted else Unposted),
          tx_notes = None\<rparr>)"

definition processAndSetTransactions ::
  "JsEnv \<Rightarrow> ParsedTx option list \<Rightarrow> AppState \<Rightarrow> js_error + AppState" where
  "processAndSetTransactions env parsedTxs s =
     (case those parsedTxs of
        None \<Rightarrow> Inl TypeError
      | Some txs \<Rightarrow>
          Inr (s\<lparr>statementTransactions :=
                   filter (\<lambda>tx. tx_amount tx \<noteq> NaN)
                     (map (newTransaction env (set (map rt_id (reconciledTransactions s)))) txs),
                 isLoading := False\<rparr>))"

text \<open>
  The handlers around the posting paths that decide which transactions reach them:
  the selection check box, the row's journal button, the AI button and the
  \<open>selectedTransactions\<close> property handed to the AI modal.
\<close>

definition handleSelectTx :: "string \<Rightarrow> AppState \<Rightarrow> AppState" where
  "handleSelectTx i s =
     (if i \<in> selectedTx s then s\<lparr>selectedTx := selectedTx s - {i}\<rparr>
      else s\<lparr>selectedTx := insert i (selectedTx s)\<rparr>)"

definition handleOpenJournalModal ::
  "Transaction option \<Rightarrow> JournalEntry option \<Rightarrow> AppState \<Rightarrow> AppState" where
  "handleOpenJournalModal tx entryToEdit s =
     (case entryToEdit of
        Some e \<Rightarrow>
          s\<lparr>editingJournal := Some e,
            journalLinkedTx :=
              (case find (\<lambda>rt. rt_journalEntryId rt = je_id e) (reconciledTransactions s) of
                 Some linkedReconciledTx \<Rightarrow>
                   find (\<lambda>st. tx_id st = rt_id linkedReconciledTx) (statementTransactions s)
               | None \<Rightarrow> None),
            isJournalModalOpen := True\<rparr>
      | None \<Rightarrow> s\<lparr>editingJournal := None, journalLinkedTx := tx, isJournalModalOpen := True\<rparr>)"

definition handleAiJournalize :: "AppState \<Rightarrow> AppState" where
  "handleAiJournalize s =
     (if selectedTx s \<noteq> {} \<and> selectedBankAccountId s \<noteq> [] then s\<lparr>isAiJournalModalOpen := True\<rparr>
      else s)"

definition selectedTransactions :: "AppState \<Rightarrow> Transaction list" where
  "selectedTransactions s = filter (\<lambda>tx. tx_id tx \<in> selectedTx s) (statementTransactions s)"

section \<open>Concrete data for evaluating the handlers\<close>

text \<open>A bank line crediting 500 against the suspense account, as the row button builds it.\<close>

definition entry_500 :: JournalEntry where
  "entry_500 =
     \<lparr>je_id = ''je-1'', je_date = ''2024-07-01'', je_description = ''POS purchase'',
      je_refNo = Some [],
      je_lines =
        [\<lparr>ln_id = ''l1'', ln_accountId = ''acc-1'', ln_debit = Fin 0, ln_credit = Fin (dbl 500),
          ln_description = None\<rparr>,
         \<lparr>ln_id = ''l2'', ln_accountId = ''acc-0'', ln_debit = Fin (dbl 500), ln_credit = Fin 0,
          ln_description = None\<rparr>],
      je_notes = None\<rparr>"

text \<open>The blank two-line entry a new journal modal starts with.\<close>

definition entry_blank :: JournalEntry where
  "entry_blank =
     \<lparr>je_id = ''je-0'', je_date = ''2024-07-01'', je_description = [], je_refNo = Some [],
      je_lines =
        [\<lparr>ln_id = ''l1'', ln_accountId = [], ln_debit = Fin 0, ln_credit = Fin 0,
          ln_description = None\<rparr>,
         \<lparr>ln_id = ''l2'', ln_accountId = [], ln_debit = Fin 0, ln_credit = Fin 0,
          ln_description = None\<rparr>],
      je_notes = None\<rparr>"

text \<open>A balanced entry whose second line has no account yet.\<close>

definition entry_no_account :: JournalEntry where
  "entry_no_account =
     \<lparr>je_id = ''je-2'', je_date = ''2024-07-01'', je_description = ''Rent'', je_refNo = Some [],
      je_lines =
        [\<lparr>ln_id = ''l1'', ln_accountId = ''acc-1'', ln_debit = Fin 0, ln_credit = Fin (dbl 500),
          ln_description = None\<rparr>,
         \<lparr>ln_id = ''l2'', ln_accountId = [], ln_debit = Fin (dbl 500), ln_credit = Fin 0,
          ln_description = None\<rparr>],
      je_notes = None\<rparr>"

text \<open>An entry with a debit of 500 against a credit of 3.\<close>

definition entry_unequal :: JournalEntry where
  "entry_unequal =
     \<lparr>je_id = ''je-3'', je_date = ''2024-07-01'', je_description = ''Rent'', je_refNo = Some [],
      je_lines =
        [\<lparr>ln_id = ''l1'', ln_accountId = ''acc-1'', ln_debit = Fin 0, ln_credit = Fin (dbl 3),
          ln_description = None\<rparr>,
         \<lparr>ln_id = ''l2'', ln_accountId = ''acc-2'', ln_debit = Fin (dbl 500), ln_credit = Fin 0,
          ln_description = None\<rparr>],
      je_notes = None\<rparr>"

text \<open>
  Two entries whose debit amounts do not add up exactly in doubles: debits of \<open>0.005\<close>
  (the double nearest to \<open>1/200\<close>) and \<open>1\<close> against a credit of \<open>1\<close>, and debits of
  \<open>2^53\<close> and \<open>1\<close> against a credit of \<open>2^53\<close>.
\<close>

definition entry_half_cent :: JournalEntry where
  "entry_half_cent =
     \<lparr>je_id = ''je-4'', je_date = ''2024-07-01'', je_description = ''Fee'', je_refNo = Some [],
      je_lines =
        [\<lparr>ln_id = ''l1'', ln_accountId = ''acc-2'', ln_debit = Fin (dbl (1 / 200)),
          ln_credit = Fin 0, ln_description = None\<rparr>,
         \<lparr>ln_id = ''l2'', ln_accountId = ''acc-2'', ln_debit = Fin 1, ln_credit = Fin 0,
          ln_description = None\<rparr>,
         \<lparr>ln_id = ''l3'', ln_accountId = ''acc-1'', ln_debit = Fin 0, ln_credit = Fin 1,
          ln_description = None\<rparr>],
      je_notes = None\<rparr>"

definition entry_big :: JournalEntry where
  "entry_big =
     \<lparr>je_id = ''je-5'', je_date = ''2024-07-01'', je_description = ''Loan'', je_refNo = Some [],
      je_lines =
        [\<lparr>ln_id = ''l1'', ln_accountId = ''acc-2'', ln_debit = Fin (dbl 9007199254740992),
          ln_credit = Fin 0, ln_description = None\<rparr>,
         \<lparr>ln_id = ''l2'', ln_accountId = ''acc-2'', ln_debit = Fin 1, ln_credit = Fin 0,
          ln_description = None\<rparr>,
         \<lparr>ln_id = ''l3'', ln_accountId = ''acc-1'', ln_debit = Fin 0,
          ln_credit = Fin (dbl 9007199254740992), ln_description = None\<rparr>],
      je_notes = None\<rparr>"

text \<open>
  An environment for the built-ins that agrees with JavaScript on the natural numbers
  written in decimal digits; on every other argument its values are placeholders. UUIDs
  and the clock are fixed the same way.
\<close>

definition demo_parseFloat :: "string \<Rightarrow> jsnum" where
  "demo_parseFloat s =
     (if s \<noteq> [] \<and> list_all is_digit s then to_num (real (nat_of_string s)) else NaN)"

definition demo_numToString :: "double \<Rightarrow> string" where
  "demo_numToString d =
     (let r = val d
      in if 0 \<le> r \<and> real (nat \<lfloor>r\<rfloor>) = r then string_of_nat (nat \<lfloor>r\<rfloor>) else ''#'')"

definition env_demo :: JsEnv where
  "env_demo =
     \<lparr>js_parseFloat = demo_parseFloat, js_numToString = demo_numToString,
      js_objToString = (\<lambda>k. ''[object Object]''), js_strToNumber = demo_parseFloat,
      js_objToNumber = (\<lambda>k. NaN), js_stringify = (\<lambda>v. Some ''{}''),
      js_dateIso = (\<lambda>v. None), js_today = ''2024-07-15''\<rparr>"

definition uuid_demo :: "nat \<Rightarrow> string" where
  "uuid_demo k = ''uuid-'' @ string_of_nat k"

definition now_demo :: "nat \<Rightarrow> nat" where
  "now_demo i = 1720000000000"

text \<open>\<open>DEFAULT_ACCOUNTS\<close>, and an account list without the suspense account.\<close>

definition DEFAULT_ACCOUNTS :: "Account list" where
  "DEFAULT_ACCOUNTS =
     [\<lparr>acc_id = ''acc-0'', acc_code = UNCATEGORIZED_CODE,
       acc_name = ''Uncategorized Transactions'', acc_type = ''Suspense'',
       acc_isBankAccount = None\<rparr>,
      \<lparr>acc_id = ''acc-1'', acc_code = ''1010'', acc_name = ''Primary Bank Account'',
       acc_type = ''Asset'', acc_isBankAccount = Some True\<rparr>,
      \<lparr>acc_id = ''acc-2'', acc_code = ''4000'', acc_name = ''Sales Revenue'',
       acc_type = ''Revenue'', acc_isBankAccount = None\<rparr>,
      \<lparr>acc_id = ''acc-3'', acc_code = ''5000'', acc_name = ''Cost of Goods Sold'',
       acc_type = ''Expense'', acc_isBankAccount = None\<rparr>,
      \<lparr>acc_id = ''acc-4'', acc_code = ''6010'', acc_name = ''Office Supplies'',
       acc_type = ''Expense'', acc_isBankAccount = None\<rparr>,
      \<lparr>acc_id = ''acc-5'', acc_code = ''6020'', acc_name = ''Rent Expense'',
       acc_type = ''Expense'', acc_isBankAccount = None\<rparr>,
      \<lparr>acc_id = ''acc-6'', acc_code = ''6030'', acc_name = ''Utilities'',
       acc_type = ''Expense'', acc_isBankAccount = None\<rparr>,
      \<lparr>acc_id = ''acc-7'', acc_code = ''2000'', acc_name = ''Accounts Payable'',
       acc_type = ''Liability'', acc_isBankAccount = None\<rparr>,
      \<lparr>acc_id = ''acc-8'', acc_code = ''3000'', acc_name = ''Owner's Equity'',
       acc_type = ''Equity'', acc_isBankAccount = None\<rparr>]"

definition accounts_no_suspense :: "Account list" where
  "accounts_no_suspense = tl DEFAULT_ACCOUNTS"

text \<open>The state of a new period once the user has chosen the bank account.\<close>

definition init_state :: AppState where
  "init_state =
     \<lparr>statementTransactions = [], accounts = DEFAULT_ACCOUNTS, journalEntries = [],
      reconciledTransactions = [], activePeriod = ''2024-07'', selectedBankAccountId = ''acc-1'',
      selectedTx = {}, journalLinkedTx = None, editingJournal = None,
      isJournalModalOpen = False, isAiJournalModalOpen = False, isLoading = False,
      error = None\<rparr>"

text \<open>Rows as the extraction returns them, and the transactions they become.\<close>

definition row_pos :: ParsedTx where
  "row_pos = \<lparr>p_date = JStr ''2024-07-01'', p_description = JStr '' POS purchase '',
              p_debit = JNum (Fin (dbl 500)), p_credit = JNull\<rparr>"

definition row_fee :: ParsedTx where
  "row_fee = \<lparr>p_date = JStr ''2024-07-02'', p_description = JStr ''Bank fee'',
              p_debit = JNum (Fin (dbl 20)), p_credit = JNull\<rparr>"

definition row_empty :: ParsedTx where
  "row_empty = \<lparr>p_date = JStr ''2024-07-03'', p_description = JStr ''Balance'',
                p_debit = JNull, p_credit = JNull\<rparr>"

definition id_pos :: string where
  "id_pos = ''2024-07-01-POS purchase-500-debit''"

definition id_fee :: string where
  "id_fee = ''2024-07-02-Bank fee-20-debit''"

definition tx_pos :: Transaction where
  "tx_pos =
     \<lparr>tx_id = id_pos, tx_date = ''2024-07-01'', tx_description = ''POS purchase'',
      tx_amount = Fin (dbl 500), tx_type = Debit, tx_reconciliationStatus = Some Unposted,
      tx_notes = None\<rparr>"

definition tx_fee :: Transaction where
  "tx_fee =
     \<lparr>tx_id = id_fee, tx_date = ''2024-07-02'', tx_description = ''Bank fee'',
      tx_amount = Fin (dbl 20), tx_type = Debit, tx_reconciliationStatus = Some Unposted,
      tx_notes = None\<rparr>"

definition tx_zero :: Transaction where
  "tx_zero =
     \<lparr>tx_id = ''2024-07-03-Balance-0-credit'', tx_date = ''2024-07-03'',
      tx_description = ''Balance'', tx_amount = Fin 0, tx_type = Credit,
      tx_reconciliationStatus = Some Unposted, tx_notes = None\<rparr>"

text \<open>
  A session on a statement with the single row \<open>row_pos\<close>: the user ticks the row, opens
  its journal modal and saves \<open>entry_500\<close>; the row stays ticked, so the AI button opens
  the AI modal on the same row, whose entry the user saves as well; at last the user
  deletes the first entry.
\<close>

definition entry_ai :: JournalEntry where
  "entry_ai =
     \<lparr>je_id = ''je-ai'', je_date = ''2024-07-01'', je_description = ''Card purchases'',
      je_refNo = None,
      je_lines =
        [\<lparr>ln_id = ''a1'', ln_accountId = ''acc-1'', ln_debit = Fin 0, ln_credit = Fin (dbl 500),
          ln_description = None\<rparr>,
         \<lparr>ln_id = ''a2'', ln_accountId = ''acc-2'', ln_debit = Fin (dbl 500), ln_credit = Fin 0,
          ln_description = None\<rparr>],
      je_notes = None\<rparr>"

definition s_loaded :: AppState where
  "s_loaded =
     (case processAndSetTransactions env_demo [Some row_pos] init_state of
        Inr s \<Rightarrow> s | Inl e \<Rightarrow> init_state)"

definition s_ticked :: AppState where
  "s_ticked = handleSelectTx id_pos s_loaded"

definition s_modal :: AppState where
  "s_modal = handleOpenJournalModal (Some tx_pos) None s_ticked"

definition s_saved :: AppState where
  "s_saved = handleSaveJournal entry_500 s_modal"

definition s_ai_open :: AppState where
  "s_ai_open = handleAiJournalize s_saved"

definition s_ai_saved :: AppState where
  "s_ai_saved = handleSaveAiJournal entry_ai (selectedTransactions s_ai_open) s_ai_open"

definition s_deleted :: AppState where
  "s_deleted = handleDeleteJournal True ''je-1'' s_ai_saved"

text \<open>
  States around the scenario: the statement loaded with no suspense account in the chart,
  the same with no bank account chosen, and three rows of which an AI entry consolidates
  the first two.
\<close>

definition s_no_suspense :: AppState where
  "s_no_suspense =
     init_state\<lparr>statementTransactions := [tx_pos], accounts := accounts_no_suspense\<rparr>"

definition s_no_suspense_no_bank :: AppState where
  "s_no_suspense_no_bank = s_no_suspense\<lparr>selectedBankAccountId := []\<rparr>"

definition s_consolidated :: AppState where
  "s_consolidated =
     handleSaveAiJournal entry_ai [tx_pos, tx_fee]
       (init_state\<lparr>statementTransactions := [tx_pos, tx_fee, tx_zero]\<rparr>)"

definition entry_500_edited :: JournalEntry where
  "entry_500_edited = entry_500\<lparr>je_description := ''POS purchase, card''\<rparr>"

text \<open>A suggested line with an amount on both sides, and rows for the account import.\<close>

definition ai_line_both :: AiLine where
  "ai_line_both =
     \<lparr>ai_accountId = ''acc-1'', ai_debit = JNum (Fin (dbl 100)), ai_credit = JNum (Fin (dbl 100))\<rparr>"

definition rows_1000 :: "cell list list" where
  "rows_1000 = [[CStr ''1000'', CStr ''Cash'', CStr ''Asset''],
                [CStr ''1000'', CStr ''Cash Dup'', CStr ''Asset'']]"

definition rows_mixed :: "cell list list" where
  "rows_mixed = [[CStr ''1010'', CStr ''Bank'', CStr ''Asset''],
                 [CStr ''7000'', CStr [], CStr ''Expense''],
                 [CStr '' 7010 '', CStr ''Travel'', CStr ''Expense''],
                 [CStr ''7020'', CStr ''Meals'']]"

section \<open>Predicates used to state the properties\<close>

text \<open>
  The two sums of the balance property, in the words of the specification the sum of
  the lines' debit amounts and the sum of the lines' credit amounts: the amounts, each
  read with \<open>Number(x || 0)\<close>, added one by one from the first line on in the
  arithmetic of the machine.
\<close>

definition sum_debits :: "JournalLine list \<Rightarrow> jsnum" where
  "sum_debits lns = foldl num_add (Fin 0) (map (\<lambda>l. num_or_zero (ln_debit l)) lns)"

definition sum_credits :: "JournalLine list \<Rightarrow> jsnum" where
  "sum_credits lns = foldl num_add (Fin 0) (map (\<lambda>l. num_or_zero (ln_credit l)) lns)"

text \<open>
  The same two sums without the rounding of the machine: the exact sum of the amounts,
  \<open>None\<close> when an amount is not finite.
\<close>

fun exact_sum :: "jsnum list \<Rightarrow> real option" where
  "exact_sum [] = Some 0"
| "exact_sum (Fin d # xs) = map_option (\<lambda>s. val d + s) (exact_sum xs)"
| "exact_sum (x # xs) = None"

definition exact_debits :: "JournalLine list \<Rightarrow> real option" where
  "exact_debits lns = exact_sum (map (\<lambda>l. num_or_zero (ln_debit l)) lns)"

definition exact_credits :: "JournalLine list \<Rightarrow> real option" where
  "exact_credits lns = exact_sum (map (\<lambda>l. num_or_zero (ln_credit l)) lns)"

text \<open>
  A line carries both sides when its debit and its credit are both neither \<open>0\<close> nor
  \<open>NaN\<close>, that is when both count in the totals.
\<close>

definition both_sides :: "JournalLine \<Rightarrow> bool" where
  "both_sides l = (num_truthy (ln_debit l) \<and> num_truthy (ln_credit l))"

text \<open>A line update whose amount, if it sets one, is not negative (\<open>NaN\<close> is not).\<close>

fun num_not_negative :: "jsnum \<Rightarrow> bool" where
  "num_not_negative NaN = True"
| "num_not_negative PInf = True"
| "num_not_negative NInf = False"
| "num_not_negative (Fin r) = (0 \<le> r)"

fun update_amount_ok :: "line_update \<Rightarrow> bool" where
  "update_amount_ok (Set_debit v) = num_not_negative v"
| "update_amount_ok (Set_credit v) = num_not_negative v"
| "update_amount_ok _ = True"

text \<open>The account \<open>a\<close> has the trimmed code, name and type of the row.\<close>

definition row_account :: "JsEnv \<Rightarrow> cell list \<Rightarrow> Account \<Rightarrow> bool" where
  "row_account env row a =
     (acc_code a = trim (js_String env (cell_val (row ! 0))) \<and>
      acc_name a = trim (js_String env (cell_val (row ! 1))) \<and>
      acc_type a = trim (js_String env (cell_val (row ! 2))))"

text \<open>
  Status agreement: a statement transaction is posted exactly when a link carries its id.
  Unique links: no two links carry the same transaction id.
\<close>

definition status_agrees :: "AppState \<Rightarrow> bool" where
  "status_agrees s =
     list_all (\<lambda>tx. (tx_reconciliationStatus tx = Some Posted) =
                     list_ex (\<lambda>rt. rt_id rt = tx_id tx) (reconciledTransactions s))
       (statementTransactions s)"

definition links_unique :: "AppState \<Rightarrow> bool" where
  "links_unique s = distinct (map rt_id (reconciledTransactions s))"

text \<open>The transactions that bulk posting does not skip.\<close>

definition unposted :: "Transaction list \<Rightarrow> Transaction list" where
  "unposted txs = filter (\<lambda>tx. tx_reconciliationStatus tx \<noteq> Some Posted) txs"

text \<open>
  The two arrays that the \<open>forEach\<close> of bulk posting has built when it ends, in closed
  form: entry and link number \<open>i\<close> belong to the \<open>i\<close>-th transaction that is not skipped
  and use the UUIDs drawn from position \<open>3 * i\<close> on.
\<close>

definition newJournalEntries ::
  "(nat \<Rightarrow> string) \<Rightarrow> AppState \<Rightarrow> string \<Rightarrow> Transaction list \<Rightarrow> JournalEntry list" where
  "newJournalEntries uuid s uncategorizedId txs =
     map (\<lambda>(i, tx). newJournal uuid (3 * i) (selectedBankAccountId s) uncategorizedId tx)
       (enumerate 0 (unposted txs))"

definition newReconciledTxs ::
  "(nat \<Rightarrow> string) \<Rightarrow> AppState \<Rightarrow> Transaction list \<Rightarrow> ReconciledTransaction list" where
  "newReconciledTxs uuid s txs =
     map (\<lambda>(i, tx). newRecon s (uuid (3 * i)) tx) (enumerate 0 (unposted txs))"

text \<open>The handlers that write links or statuses, as one family of operations.\<close>

datatype ledger_op =
    SaveJournal JournalEntry
  | SaveAiJournal JournalEntry "Transaction list"
  | DeleteJournal bool string
  | PostToCashbook "nat \<Rightarrow> string" "Transaction list"

fun apply_op :: "ledger_op \<Rightarrow> AppState \<Rightarrow> AppState" where
  "apply_op (SaveJournal entry) s = handleSaveJournal entry s"
| "apply_op (SaveAiJournal entry sourceTxs) s = handleSaveAiJournal entry sourceTxs s"
| "apply_op (DeleteJournal confirmed jid) s = handleDeleteJournal confirmed jid s"
| "apply_op (PostToCashbook uuid txsToPost) s = handlePostToCashbook uuid txsToPost s"



definition s_dup :: AppState where
  "s_dup = init_state\<lparr>statementTransactions := [tx_pos, tx_pos]\<rparr>"


section \<open>Properties\<close>

subsection \<open>Doubles and their rounding\<close>

lemma pow2_int: "(2::real) powi (int k - 1074) = 2 ^ k / 2 ^ 1074"
proof -
  have "(2::real) powi (int k - 1074) = 2 powi (int k) / 2 powi 1074"
    by (rule power_int_diff) simp
  then show ?thesis by simp
qed

lemma is_double_iff:
  "is_double x = (\<exists>m j. \<bar>m\<bar> < 2 ^ 53 \<and> - 1074 \<le> j \<and> j \<le> 971 \<and> x = of_int m * 2 powi j)"
proof
  assume "is_double x"
  then obtain m :: int and k :: nat
    where m: "\<bar>m\<bar> < 2 ^ 53" "k \<le> 2045" "x = of_int m * 2 ^ k / 2 ^ 1074"
    unfolding is_double_def by blast
  have "x = of_int m * 2 powi (int k - 1074)" using m(3) by (simp add: pow2_int)
  moreover have "- 1074 \<le> int k - 1074" "int k - 1074 \<le> 971" using m(2) by simp_all
  ultimately show "\<exists>m j. \<bar>m\<bar> < 2 ^ 53 \<and> - 1074 \<le> j \<and> j \<le> 971 \<and> x = of_int m * 2 powi j"
    using m(1) by blast
next
  assume "\<exists>m j. \<bar>m\<bar> < 2 ^ 53 \<and> - 1074 \<le> j \<and> j \<le> 971 \<and> x = of_int m * 2 powi j"
  then obtain m :: int and j :: int
    where m: "\<bar>m\<bar> < 2 ^ 53" "- 1074 \<le> j" "j \<le> 971" "x = of_int m * 2 powi j"
    by blast
  define k where "k = nat (j + 1074)"
  have j: "j = int k - 1074" using m(2) by (simp add: k_def)
  have "k \<le> 2045" using m(3) by (simp add: k_def)
  moreover have "x = of_int m * 2 ^ k / 2 ^ 1074" using m(4) unfolding j by (simp add: pow2_int)
  ultimately show "is_double x" unfolding is_double_def using m(1) by blast
qed

lemma expo_iff:
  assumes "x \<noteq> 0"
  shows "(expo x = e) = (2 powi e \<le> \<bar>x\<bar> \<and> \<bar>x\<bar> < 2 powi (e + 1))"
proof -
  have a: "(2::real) powr real_of_int e = 2 powi e" by (rule powr_real_of_int') simp_all
  have b: "(2::real) powr real_of_int (e + 1) = 2 powi (e + 1)"
    by (rule powr_real_of_int') simp_all
  from assms have "(\<lfloor>log 2 \<bar>x\<bar>\<rfloor> = e) =
      (2 powr real_of_int e \<le> \<bar>x\<bar> \<and> \<bar>x\<bar> < 2 powr real_of_int (e + 1))"
    by (intro floor_log_eq_powr_iff) simp_all
  then show ?thesis unfolding a b expo_def .
qed

lemma expo_bounds:
  assumes "x \<noteq> 0"
  shows "2 powi expo x \<le> \<bar>x\<bar>" "\<bar>x\<bar> < 2 powi (expo x + 1)"
  using expo_iff [OF assms, of "expo x"] by simp_all

lemma pow2_less_imp: "(2::real) powi a < 2 powi b \<Longrightarrow> a < b"
proof (rule ccontr)
  assume l: "(2::real) powi a < 2 powi b" and "\<not> a < b"
  then have "b \<le> a" by simp
  then have "(2::real) powi b \<le> 2 powi a" by (rule power_int_increasing) simp
  with l show False by simp
qed

lemma pow2_le_imp: "(2::real) powi a \<le> 2 powi b \<Longrightarrow> a \<le> b"
proof (rule ccontr)
  assume l: "(2::real) powi a \<le> 2 powi b" and "\<not> a \<le> b"
  then have "b < a" by simp
  then have "(2::real) powi b < 2 powi a" by (rule power_int_strict_increasing) simp
  with l show False by simp
qed

lemma rne_of_int: "rne (of_int n) = n"
  by (simp add: rne_def)

lemma pow2_nat: "0 \<le> d \<Longrightarrow> (2::real) powi d = of_int (2 ^ nat d)"
  by (simp add: power_int_def)

lemma round_nearest_double:
  assumes "is_double x"
  shows "round_nearest x = x"
proof (cases "x = 0")
  case True
  then show ?thesis by (simp add: round_nearest_def)
next
  case False
  from assms obtain m :: int and j :: int
    where m: "\<bar>m\<bar> < 2 ^ 53" "- 1074 \<le> j" "j \<le> 971" "x = of_int m * 2 powi j"
    unfolding is_double_iff by blast
  define q where "q = ulp_exp x"
  have "\<bar>x\<bar> = of_int \<bar>m\<bar> * 2 powi j" by (simp add: m(4) abs_mult)
  also have "\<dots> < 2 ^ 53 * 2 powi j"
  proof -
    have "(of_int \<bar>m\<bar> :: real) < of_int (2 ^ 53)" using m(1) by (simp only: of_int_less_iff)
    then show ?thesis by simp
  qed
  also have "\<dots> = 2 powi (53 + j)" by (simp add: power_int_add)
  finally have "\<bar>x\<bar> < 2 powi (53 + j)" .
  with expo_bounds(1) [OF False] have "(2::real) powi expo x < 2 powi (53 + j)" by simp
  then have "expo x < 53 + j" by (rule pow2_less_imp)
  with m(2) have qj: "q \<le> j" by (simp add: q_def ulp_exp_def)
  have "2 powi j = (2::real) powi (j - q) * 2 powi q"
    by (simp flip: power_int_add)
  also have "(2::real) powi (j - q) = of_int (2 ^ nat (j - q))" using qj by (simp add: pow2_nat)
  finally have "x = of_int (m * 2 ^ nat (j - q)) * 2 powi q" by (simp add: m(4))
  then have x: "x / 2 powi q = of_int (m * 2 ^ nat (j - q))" by simp
  have "round_nearest x = of_int (rne (x / 2 powi q)) * 2 powi q"
    using False by (simp add: round_nearest_def q_def)
  also have "\<dots> = of_int (m * 2 ^ nat (j - q)) * 2 powi q" by (simp only: x rne_of_int)
  also have "\<dots> = x / 2 powi q * 2 powi q" by (simp only: x)
  also have "\<dots> = x" by simp
  finally show ?thesis .
qed


lemma rne_ge: "of_int N \<le> y \<Longrightarrow> N \<le> rne y"
proof -
  assume "of_int N \<le> y"
  then have "N \<le> \<lfloor>y\<rfloor>" by (simp add: le_floor_iff)
  then show ?thesis by (simp add: rne_def Let_def)
qed

lemma rne_le: "y \<le> of_int N \<Longrightarrow> rne y \<le> N"
proof -
  assume y: "y \<le> of_int N"
  have f: "\<lfloor>y\<rfloor> \<le> N" using y by (simp add: floor_le_iff)
  show ?thesis
  proof (cases "y - of_int \<lfloor>y\<rfloor> < 1 / 2")
    case True
    then show ?thesis using f by (simp add: rne_def Let_def)
  next
    case False
    then have "of_int \<lfloor>y\<rfloor> < y" by simp
    with y have "(of_int \<lfloor>y\<rfloor> :: real) < of_int N" by simp
    then have "\<lfloor>y\<rfloor> < N" by (simp only: of_int_less_iff)
    then show ?thesis by (simp add: rne_def Let_def)
  qed
qed

lemma rne_near: "\<bar>of_int (rne y) - y\<bar> \<le> 1 / 2"
proof -
  have "of_int \<lfloor>y\<rfloor> \<le> y" "y < of_int \<lfloor>y\<rfloor> + 1" by linarith+
  then show ?thesis by (auto simp: rne_def Let_def)
qed

lemma round_nearest_near:
  "\<bar>round_nearest x - x\<bar> \<le> 2 powi ulp_exp x / 2"
proof (cases "x = 0")
  case True
  then show ?thesis by (simp add: round_nearest_def)
next
  case False
  define u :: real where "u = 2 powi ulp_exp x"
  have u: "0 < u" by (simp add: u_def)
  have "round_nearest x - x = (of_int (rne (x / u)) - x / u) * u"
    using False u by (simp add: round_nearest_def u_def algebra_simps)
  then have "\<bar>round_nearest x - x\<bar> = \<bar>of_int (rne (x / u)) - x / u\<bar> * u"
    using u by (simp add: abs_mult)
  also have "\<dots> \<le> 1 / 2 * u" using rne_near [of "x / u"] u by (intro mult_right_mono) simp_all
  finally show ?thesis by (simp add: u_def)
qed

lemma round_nearest_is_double:
  assumes "\<bar>round_nearest x\<bar> < 2 ^ 1024"
  shows "is_double (round_nearest x)"
proof (cases "x = 0")
  case True
  have "is_double 0" unfolding is_double_def by (rule exI [of _ 0], rule exI [of _ 0]) simp
  then show ?thesis using True by (simp add: round_nearest_def)
next
  case False
  define e where "e = expo x"
  define q where "q = ulp_exp x"
  define y where "y = x / 2 powi q"
  define n where "n = rne y"
  have r: "round_nearest x = of_int n * 2 powi q"
    using False by (simp add: round_nearest_def n_def y_def q_def)
  have q1: "- 1074 \<le> q" and q2: "e - 52 \<le> q" by (simp_all add: q_def ulp_exp_def e_def)
  have lo: "2 powi e \<le> \<bar>x\<bar>" and hi: "\<bar>x\<bar> < 2 powi (e + 1)"
    using expo_bounds [OF False] by (simp_all add: e_def)
  have ay: "\<bar>y\<bar> = \<bar>x\<bar> / 2 powi q" by (simp add: y_def)
  have "\<bar>y\<bar> < 2 powi (e + 1) / 2 powi q" unfolding ay using hi by (simp add: divide_strict_right_mono)
  also have "\<dots> = 2 powi (e + 1 - q)" by (simp add: power_int_diff)
  also have "\<dots> \<le> 2 powi 53" using q2 by (intro power_int_increasing) simp_all
  finally have y53: "\<bar>y\<bar> < 2 ^ 53" by simp
  have n53: "\<bar>n\<bar> \<le> 2 ^ 53"
  proof -
    have "y \<le> of_int (2 ^ 53)" using y53 by simp
    then have "n \<le> 2 ^ 53" unfolding n_def by (rule rne_le)
    moreover have "of_int (- (2 ^ 53)) \<le> y" using y53 by simp
    then have "- (2 ^ 53) \<le> n" unfolding n_def by (rule rne_ge)
    ultimately show ?thesis by simp
  qed
  have ar: "\<bar>round_nearest x\<bar> = of_int \<bar>n\<bar> * 2 powi q" by (simp add: r abs_mult)
  have q971: "q \<le> 971"
  proof (rule ccontr)
    assume "\<not> q \<le> 971"
    then have big: "972 \<le> q" by simp
    with q1 have qe: "q = e - 52" by (simp add: q_def ulp_exp_def e_def)
    have "(2::real) powi 52 = 2 powi e / 2 powi q" by (simp add: qe power_int_diff)
    also have "\<dots> \<le> \<bar>y\<bar>" unfolding ay using lo by (simp add: divide_right_mono)
    finally have y52: "2 ^ 52 \<le> \<bar>y\<bar>" by simp
    have "2 ^ 52 \<le> \<bar>n\<bar>"
    proof (cases "0 \<le> y")
      case True
      with y52 have "of_int (2 ^ 52) \<le> y" by simp
      then have "2 ^ 52 \<le> n" unfolding n_def by (rule rne_ge)
      then show ?thesis by simp
    next
      case False
      with y52 have "y \<le> of_int (- (2 ^ 52))" by simp
      then have "n \<le> - (2 ^ 52)" unfolding n_def by (rule rne_le)
      then show ?thesis by simp
    qed
    then have "(of_int (2 ^ 52) :: real) \<le> of_int \<bar>n\<bar>" by (simp only: of_int_le_iff)
    then have "(2::real) ^ 52 * 2 powi q \<le> of_int \<bar>n\<bar> * 2 powi q"
      by (intro mult_right_mono) simp_all
    moreover have "(2::real) powi 972 \<le> 2 powi q" using big by (intro power_int_increasing) simp_all
    then have "(2::real) ^ 52 * 2 powi 972 \<le> 2 ^ 52 * 2 powi q" by (intro mult_left_mono) simp_all
    moreover have "(2::real) ^ 52 * 2 powi 972 = 2 ^ 1024" by simp
    ultimately have "2 ^ 1024 \<le> \<bar>round_nearest x\<bar>" unfolding ar by linarith
    with assms show False by simp
  qed
  show ?thesis
  proof (cases "\<bar>n\<bar> < 2 ^ 53")
    case True
    with q1 q971 r show ?thesis unfolding is_double_iff by blast
  next
    case False
    with n53 have n: "\<bar>n\<bar> = 2 ^ 53" by simp
    have "(2::real) powi (53 + q) = 2 ^ 53 * 2 powi q" by (simp add: power_int_add)
    also have "\<dots> = \<bar>round_nearest x\<bar>" unfolding ar n by simp
    also have "\<dots> < 2 powi 1024" using assms by simp
    finally have "53 + q < 1024" by (rule pow2_less_imp)
    then have q970: "q + 1 \<le> 971" by simp
    have "(2::real) powi (q + 1) = 2 * 2 powi q" by (simp add: power_int_add)
    then have p: "(2::real) ^ 53 * 2 powi q = 2 ^ 52 * 2 powi (q + 1)" by simp
    have "of_int n = (of_int (sgn n * 2 ^ 52) :: real) * 2"
    proof -
      have "n = sgn n * \<bar>n\<bar>" by (simp add: sgn_mult_abs)
      then have "n = sgn n * 2 ^ 52 * 2" unfolding n by simp
      then have "(of_int n :: real) = of_int (sgn n * 2 ^ 52 * 2)" by (simp only:)
      then show ?thesis by simp
    qed
    then have "round_nearest x = of_int (sgn n * 2 ^ 52) * 2 powi (q + 1)"
      unfolding r by (simp add: power_int_add)
    moreover have "\<bar>sgn n * 2 ^ 52\<bar> < (2::int) ^ 53" by (simp add: abs_mult abs_sgn_eq)
    moreover have "- 1074 \<le> q + 1" using q1 by simp
    ultimately show ?thesis unfolding is_double_iff using q970 by blast
  qed
qed

text \<open>
  Rounding leaves a double as it is, so the sum of two doubles that is a double is
  exact; a rounded real within the range is a double, at most half a spacing away.
\<close>

lemma is_double_bound:
  assumes "is_double x"
  shows "\<bar>x\<bar> < 2 ^ 1024"
proof -
  from assms obtain m :: int and j :: int
    where m: "\<bar>m\<bar> < 2 ^ 53" "- 1074 \<le> j" "j \<le> 971" "x = of_int m * 2 powi j"
    unfolding is_double_iff by blast
  have "\<bar>x\<bar> = of_int \<bar>m\<bar> * 2 powi j" by (simp add: m(4) abs_mult)
  also have "\<dots> < 2 ^ 53 * 2 powi j"
  proof -
    have "(of_int \<bar>m\<bar> :: real) < of_int (2 ^ 53)" using m(1) by (simp only: of_int_less_iff)
    then show ?thesis by simp
  qed
  also have "\<dots> \<le> 2 ^ 53 * 2 powi 971"
    using m(3) by (intro mult_left_mono power_int_increasing) simp_all
  also have "\<dots> = 2 ^ 1024" by simp
  finally show ?thesis .
qed

lemma is_double_val: "is_double (val a)"
  using val [of a] by simp

lemma is_double_of_int: "\<bar>i\<bar> < 2 ^ 53 \<Longrightarrow> is_double (of_int i)"
  unfolding is_double_def by (rule exI [of _ i], rule exI [of _ 1074]) simp

lemma is_double_0: "is_double 0"
  using is_double_of_int [of 0] by simp

lemma is_double_1: "is_double 1"
  using is_double_of_int [of 1] by simp

lemma is_double_numeral: "numeral w < (2 ^ 53 :: int) \<Longrightarrow> is_double (numeral w)"
  using is_double_of_int [of "numeral w"] by simp

lemma is_double_neg_numeral: "numeral w < (2 ^ 53 :: int) \<Longrightarrow> is_double (- numeral w)"
  using is_double_of_int [of "- numeral w"] by simp

lemma is_double_in_range: "is_double x \<Longrightarrow> \<bar>x\<bar> < overflow_bound"
  unfolding overflow_bound_def by (rule is_double_bound)

lemma val_dbl: "is_double x \<Longrightarrow> val (dbl x) = x"
  by (simp add: dbl_def round_nearest_double is_double_in_range Abs_double_inverse)

lemma dbl_val: "dbl (val a) = a"
  by (simp add: dbl_def round_nearest_double is_double_val is_double_in_range val_inverse)

lemma val_dbl_round:
  assumes "\<bar>round_nearest x\<bar> < 2 ^ 1024"
  shows "val (dbl x) = round_nearest x"
proof -
  from assms have "is_double (round_nearest x)" by (rule round_nearest_is_double)
  then show ?thesis using assms by (simp add: dbl_def overflow_bound_def Abs_double_inverse)
qed

lemma dbl_round: "is_double (round_nearest x) \<Longrightarrow> dbl x = dbl (round_nearest x)"
  by (simp add: dbl_def round_nearest_double)

lemma dbl_0: "dbl 0 = 0"
  by (simp add: dbl_def round_nearest_def overflow_bound_def zero_double_def)

lemma dbl_1: "dbl 1 = 1"
  using is_double_in_range [OF is_double_1]
  by (simp add: dbl_def round_nearest_double is_double_1 one_double_def)

lemma double_eq_iff: "(a = b) = (val a = val b)"
  by (simp add: val_inject)

lemma to_num_double: "is_double x \<Longrightarrow> to_num x = Fin (dbl x)"
proof -
  assume d: "is_double x"
  then have "\<bar>x\<bar> < overflow_bound" by (rule is_double_in_range)
  then have "\<not> overflow_bound \<le> x" "\<not> x \<le> - overflow_bound" by linarith+
  then show ?thesis using d by (simp add: to_num_def round_nearest_double)
qed

lemma num_add_exact:
  "is_double (val a + val b) \<Longrightarrow> num_add (Fin a) (Fin b) = Fin (dbl (val a + val b))"
  by (simp add: to_num_double)

lemma num_add_zero_left [simp]: "num_add (Fin 0) (Fin a) = Fin a"
  by (simp add: to_num_double is_double_val zero_double.rep_eq dbl_val)

lemma num_add_zero_right [simp]: "num_add (Fin a) (Fin 0) = Fin a"
  by (simp add: to_num_double is_double_val zero_double.rep_eq dbl_val)

text \<open>
  Rules that evaluate comparisons and sums of doubles written as literals. A sum of
  two finite numbers is from here on rewritten by these rules only.
\<close>

declare num_add.simps(1) [simp del]

lemmas dbl_simps =
  is_double_0 is_double_1 is_double_numeral is_double_neg_numeral val_dbl is_double_val
  double_eq_iff zero_double.rep_eq one_double.rep_eq less_double.rep_eq less_eq_double.rep_eq
  abs_double.rep_eq to_num_double

subsection \<open>Printing numbers\<close>

lemma digit_val_digit_char: "d < 10 \<Longrightarrow> digit_val (digit_char d) = d"
  unfolding digit_val_def digit_char_def
  by (auto simp: numeral_eq_Suc less_Suc_eq)

lemma nat_of_string_snoc: "nat_of_string (s @ [c]) = 10 * nat_of_string s + digit_val c"
  by (simp add: nat_of_string_def)

lemma nat_of_string_of_nat: "nat_of_string (string_of_nat n) = n"
proof (induction n rule: string_of_nat.induct)
  case (1 n)
  show ?case
  proof (cases "n < 10")
    case True
    then show ?thesis
      by (simp add: string_of_nat.simps [of n] nat_of_string_def digit_val_digit_char)
  next
    case False
    have "nat_of_string (string_of_nat n) =
            10 * nat_of_string (string_of_nat (n div 10)) + digit_val (digit_char (n mod 10))"
      using False by (simp add: string_of_nat.simps [of n] nat_of_string_snoc)
    also have "\<dots> = 10 * (n div 10) + n mod 10"
      using False "1.IH" by (simp add: digit_val_digit_char)
    finally show ?thesis by simp
  qed
qed

lemma string_of_nat_inj: "string_of_nat m = string_of_nat n \<Longrightarrow> m = n"
  by (metis nat_of_string_of_nat)

lemma digit_char_inj: "a < 10 \<Longrightarrow> b < 10 \<Longrightarrow> digit_char a = digit_char b \<Longrightarrow> a = b"
  by (metis digit_val_digit_char)

lemma digit_char_not_minus: "d < 10 \<Longrightarrow> digit_char d \<noteq> CHR ''-''"
  unfolding digit_char_def by (auto simp: numeral_eq_Suc less_Suc_eq)

lemma string_of_nat_no_minus: "CHR ''-'' \<notin> set (string_of_nat n)"
proof (induction n rule: string_of_nat.induct)
  case (1 n)
  show ?case
  proof (cases "n < 10")
    case True
    then show ?thesis
      using digit_char_not_minus [of n] by (auto simp: string_of_nat.simps [of n])
  next
    case False
    then show ?thesis
      using "1.IH" digit_char_not_minus [of "n mod 10"]
      by (auto simp: string_of_nat.simps [of n])
  qed
qed

lemma hundredths_split:
  fixes a b :: nat
  assumes d: "a div 100 = b div 100"
    and m1: "a mod 100 div 10 = b mod 100 div 10"
    and m2: "a mod 10 = b mod 10"
  shows "a = b"
proof -
  have e: "\<And>x::nat. x mod 100 mod 10 = x mod 10"
    by (simp add: mod_mod_cancel)
  have "a mod 100 = 10 * (a mod 100 div 10) + a mod 100 mod 10" by simp
  also have "\<dots> = 10 * (b mod 100 div 10) + b mod 100 mod 10" using m1 m2 e by simp
  also have "\<dots> = b mod 100" by simp
  finally have m: "a mod 100 = b mod 100" .
  have "a = 100 * (a div 100) + a mod 100" by simp
  also have "\<dots> = 100 * (b div 100) + b mod 100" using d m by simp
  also have "\<dots> = b" by simp
  finally show ?thesis .
qed

text \<open>Two reals that print the same to two decimal places round to the same number.\<close>

lemma fixed2_eq:
  fixes a b :: real
  assumes "(if a < 0 then ''-'' else '''') @ string_of_nat (hundredths a div 100) @ ''.'' @
             [digit_char (hundredths a mod 100 div 10), digit_char (hundredths a mod 10)] =
           (if b < 0 then ''-'' else '''') @ string_of_nat (hundredths b div 100) @ ''.'' @
             [digit_char (hundredths b mod 100 div 10), digit_char (hundredths b mod 10)]"
  shows "round2 a = round2 b"
proof -
  define sa where "sa = (if a < 0 then ''-'' else []) @ string_of_nat (hundredths a div 100)"
  define sb where "sb = (if b < 0 then ''-'' else []) @ string_of_nat (hundredths b div 100)"
  define ta where
    "ta = [CHR ''.'', digit_char (hundredths a mod 100 div 10), digit_char (hundredths a mod 10)]"
  define tb where
    "tb = [CHR ''.'', digit_char (hundredths b mod 100 div 10), digit_char (hundredths b mod 10)]"
  from assms have eq: "sa @ ta = sb @ tb"
    by (simp add: sa_def sb_def ta_def tb_def)
  have len: "length ta = length tb" by (simp add: ta_def tb_def)
  from eq len have hd_eq: "sa = sb" and tl_eq: "ta = tb"
    by (auto simp: append_eq_append_conv)
  have sign: "(a < 0) = (b < 0)"
  proof (rule ccontr)
    assume "(a < 0) \<noteq> (b < 0)"
    then consider "a < 0" "\<not> b < 0" | "\<not> a < 0" "b < 0" by blast
    then show False
    proof cases
      case 1
      with hd_eq have
        "CHR ''-'' # string_of_nat (hundredths a div 100) = string_of_nat (hundredths b div 100)"
        by (simp add: sa_def sb_def)
      then have "CHR ''-'' \<in> set (string_of_nat (hundredths b div 100))"
        by (metis list.set_intros(1))
      then show False using string_of_nat_no_minus by blast
    next
      case 2
      with hd_eq have
        "string_of_nat (hundredths a div 100) = CHR ''-'' # string_of_nat (hundredths b div 100)"
        by (simp add: sa_def sb_def)
      then have "CHR ''-'' \<in> set (string_of_nat (hundredths a div 100))"
        by (metis list.set_intros(1))
      then show False using string_of_nat_no_minus by blast
    qed
  qed
  with hd_eq have "string_of_nat (hundredths a div 100) = string_of_nat (hundredths b div 100)"
    by (simp add: sa_def sb_def split: if_splits)
  then have h1: "hundredths a div 100 = hundredths b div 100"
    by (rule string_of_nat_inj)
  from tl_eq have h2: "hundredths a mod 100 div 10 = hundredths b mod 100 div 10"
    unfolding ta_def tb_def by (intro digit_char_inj) simp_all
  from tl_eq have h3: "hundredths a mod 10 = hundredths b mod 10"
    unfolding ta_def tb_def by (intro digit_char_inj) simp_all
  from h1 h2 h3 have "hundredths a = hundredths b" by (rule hundredths_split)
  with sign show ?thesis by (simp add: round2_def)
qed

lemma toFixed2_Fin_eq:
  assumes "toFixed2 (Fin a) = toFixed2 (Fin b)"
  shows "round2 (val a) = round2 (val b)"
  using assms by (intro fixed2_eq) (simp add: toFixed2_def Let_def)

text \<open>A finite number never prints as an infinity does: its last but two character is the point.\<close>

lemma toFixed2_Fin_not_Infinity: "toFixed2 (Fin a) \<noteq> ''Infinity''"
proof
  assume e: "toFixed2 (Fin a) = ''Infinity''"
  define s where
    "s = (if val a < 0 then ''-'' else []) @ string_of_nat (hundredths (val a) div 100)"
  define u where
    "u = [CHR ''.'', digit_char (hundredths (val a) mod 100 div 10),
          digit_char (hundredths (val a) mod 10)]"
  have "toFixed2 (Fin a) = s @ u" by (simp add: toFixed2_def Let_def s_def u_def)
  with e have "s @ u = ''Infin'' @ ''ity''" by simp
  moreover have "(s @ u = ''Infin'' @ ''ity'') = (s = ''Infin'' \<and> u = ''ity'')"
    by (rule append_eq_append_conv) (simp add: u_def)
  ultimately have "u = ''ity''" by (simp only:)
  then show False by (simp add: u_def)
qed

lemmas print_simps = toFixed2_def hundredths_def string_of_nat.simps digit_char_def Let_def

subsection \<open>Totals and the balance check\<close>

text \<open>The reduction of the modals computes the two sums side by side.\<close>

lemma totals_step_sums:
  "foldl (\<lambda>acc line.
        \<lparr>t_debit = num_add (t_debit acc) (num_or_zero (ln_debit line)),
         t_credit = num_add (t_credit acc) (num_or_zero (ln_credit line))\<rparr>)
       \<lparr>t_debit = d0, t_credit = c0\<rparr> lns =
   \<lparr>t_debit = foldl num_add d0 (map (\<lambda>l. num_or_zero (ln_debit l)) lns),
    t_credit = foldl num_add c0 (map (\<lambda>l. num_or_zero (ln_credit l)) lns)\<rparr>"
  by (induction lns arbitrary: d0 c0) simp_all

lemma totals_sums:
  "totals lns = \<lparr>t_debit = sum_debits lns, t_credit = sum_credits lns\<rparr>"
  unfolding totals_def sum_debits_def sum_credits_def by (rule totals_step_sums)

lemma sums_all_zero:
  "list_all (\<lambda>l. ln_debit l = Fin 0 \<and> ln_credit l = Fin 0) lns \<Longrightarrow>
   foldl num_add (Fin 0) (map (\<lambda>l. num_or_zero (ln_debit l)) lns) = Fin 0 \<and>
   foldl num_add (Fin 0) (map (\<lambda>l. num_or_zero (ln_credit l)) lns) = Fin 0"
  by (induction lns) (simp_all add: num_or_zero_def num_add_zero_left)

lemma totals_all_zero:
  "list_all (\<lambda>l. ln_debit l = Fin 0 \<and> ln_credit l = Fin 0) lns \<Longrightarrow>
   totals lns = \<lparr>t_debit = Fin 0, t_credit = Fin 0\<rparr>"
  using sums_all_zero [of lns] by (simp add: totals_sums sum_debits_def sum_credits_def)

lemma isBalanced_sound:
  assumes "isBalanced lns"
  shows "(\<exists>d c. sum_debits lns = Fin d \<and> sum_credits lns = Fin c \<and>
            round2 (val d) = round2 (val c) \<and> 0 < d) \<or>
         (sum_debits lns = PInf \<and> sum_credits lns = PInf)"
proof -
  from assms have p: "toFixed2 (sum_debits lns) = toFixed2 (sum_credits lns)"
    and g: "num_gt0 (sum_debits lns)"
    by (simp_all add: isBalanced_def totals_sums)
  show ?thesis
  proof (cases "sum_debits lns")
    case NaN
    with g show ?thesis by simp
  next
    case NInf
    with g show ?thesis by simp
  next
    case PInf
    show ?thesis
    proof (cases "sum_credits lns")
      case (Fin c)
      with p PInf have "toFixed2 (Fin c) = ''Infinity''" by (simp add: toFixed2_def)
      then show ?thesis using toFixed2_Fin_not_Infinity by blast
    qed (use p PInf in \<open>simp_all add: toFixed2_def\<close>)
  next
    case (Fin d)
    from g Fin have d: "0 < d" by simp
    show ?thesis
    proof (cases "sum_credits lns")
      case PInf
      with p Fin have "toFixed2 (Fin d) = ''Infinity''" by (simp add: toFixed2_def)
      then show ?thesis using toFixed2_Fin_not_Infinity by blast
    next
      case c: (Fin c)
      with p Fin have "toFixed2 (Fin d) = toFixed2 (Fin c)" by simp
      then have "round2 (val d) = round2 (val c)" by (rule toFixed2_Fin_eq)
      with Fin c d show ?thesis by simp
    next
      case NaN
      with p Fin have "toFixed2 (Fin d) = ''NaN''" by (simp add: toFixed2_def)
      then show ?thesis by (simp add: toFixed2_def Let_def split: if_splits)
    next
      case NInf
      with p Fin d have "toFixed2 (Fin d) = ''-Infinity''" by (simp add: toFixed2_def)
      moreover have "\<not> val d < 0" using d by (simp add: less_double.rep_eq zero_double.rep_eq)
      ultimately have "CHR ''-'' \<in> set (string_of_nat (hundredths (val d) div 100))"
        by (simp add: toFixed2_def Let_def)
      then show ?thesis using string_of_nat_no_minus by blast
    qed
  qed
qed

lemma isBalanced_all_zero:
  "list_all (\<lambda>l. ln_debit l = Fin 0 \<and> ln_credit l = Fin 0) lns \<Longrightarrow> \<not> isBalanced lns"
  by (simp add: isBalanced_def totals_all_zero)

lemma ai_isBalanced_Some: "ai_isBalanced (Some e) = isBalanced (je_lines e)"
  by (simp add: ai_isBalanced_def isBalanced_def ai_totals_def)

subsection \<open>The balance check at concrete entries\<close>

text \<open>Rounding evaluated at a given binary exponent.\<close>

lemma round_nearest_eval:
  assumes "2 powi e \<le> \<bar>x\<bar>" "\<bar>x\<bar> < 2 powi (e + 1)"
    and "max (e - 52) (- 1074) = q" "rne (x / 2 powi q) = n"
  shows "round_nearest x = of_int n * 2 powi q"
proof -
  have "(0::real) < 2 powi e" by simp
  with assms(1) have "0 < \<bar>x\<bar>" by linarith
  then have x: "x \<noteq> 0" by simp
  then have "expo x = e" using assms(1,2) by (simp add: expo_iff)
  then show ?thesis using x assms(3,4) by (simp add: round_nearest_def ulp_exp_def)
qed

lemma round_half_cent:
  "round_nearest (1 / 200) = 5764607523034235 / 1152921504606846976"
  using round_nearest_eval [of "- 8" "1 / 200" "- 60" 5764607523034235]
  by (simp add: power_int_minus rne_def)

lemma round_sum_half_cent:
  "round_nearest (1 + 5764607523034235 / 1152921504606846976) =
     1131529406376837 / 1125899906842624"
  using round_nearest_eval [of 0 "1 + 5764607523034235 / 1152921504606846976" "- 52"
      4526117625507348]
  by (simp add: power_int_minus rne_def)

lemma round_big: "round_nearest 9007199254740993 = 9007199254740992"
  using round_nearest_eval [of 53 9007199254740993 1 4503599627370496]
  by (simp add: rne_def)

lemma one_double_not_zero [simp]: "(1::double) \<noteq> 0" "(0::double) \<noteq> 1"
  by (simp_all add: double_eq_iff zero_double.rep_eq one_double.rep_eq)

text \<open>The two modals evaluated at the concrete entries.\<close>

lemma sums_entry_500:
  "sum_debits (je_lines entry_500) = Fin (dbl 500)"
  "sum_credits (je_lines entry_500) = Fin (dbl 500)"
  by (simp_all add: sum_debits_def sum_credits_def entry_500_def num_or_zero_def dbl_simps)

lemma balanced_entry_500: "isBalanced (je_lines entry_500)"
  by (simp add: isBalanced_def totals_sums sums_entry_500 dbl_simps)

lemma sums_entry_unequal:
  "sum_debits (je_lines entry_unequal) = Fin (dbl 500)"
  "sum_credits (je_lines entry_unequal) = Fin (dbl 3)"
  by (simp_all add: sum_debits_def sum_credits_def entry_unequal_def num_or_zero_def dbl_simps)

lemma unbalanced_entry_unequal: "\<not> isBalanced (je_lines entry_unequal)"
  by (simp add: isBalanced_def totals_sums sums_entry_unequal dbl_simps print_simps)

lemma val_half_cent: "val (dbl (1 / 200)) = 5764607523034235 / 1152921504606846976"
proof -
  have "\<bar>round_nearest (1 / 200)\<bar> < 2 ^ 1024" unfolding round_half_cent by simp
  then have "val (dbl (1 / 200)) = round_nearest (1 / 200)" by (rule val_dbl_round)
  then show ?thesis unfolding round_half_cent .
qed

lemma add_half_cent:
  "num_add (Fin (dbl (1 / 200))) (Fin 1) = Fin (dbl (1131529406376837 / 1125899906842624))"
  "val (dbl (1131529406376837 / 1125899906842624)) = 1131529406376837 / 1125899906842624"
proof -
  define x :: real where "x = 1 + 5764607523034235 / 1152921504606846976"
  have r: "round_nearest x = 1131529406376837 / 1125899906842624"
    unfolding x_def by (rule round_sum_half_cent)
  have b: "\<bar>round_nearest x\<bar> < 2 ^ 1024" unfolding r by simp
  then have d: "is_double (round_nearest x)" by (rule round_nearest_is_double)
  from b have "\<not> overflow_bound \<le> round_nearest x" "\<not> round_nearest x \<le> - overflow_bound"
    unfolding overflow_bound_def by linarith+
  then have "to_num x = Fin (dbl x)" by (simp add: to_num_def)
  also have "dbl x = dbl (round_nearest x)" using d by (rule dbl_round)
  finally have t: "to_num x = Fin (dbl (1131529406376837 / 1125899906842624))" unfolding r .
  have "val (dbl (1 / 200)) + val 1 = x"
    by (simp add: val_half_cent one_double.rep_eq x_def)
  then show "num_add (Fin (dbl (1 / 200))) (Fin 1) =
      Fin (dbl (1131529406376837 / 1125899906842624))"
    using t by (simp add: num_add.simps(1))
  from d show "val (dbl (1131529406376837 / 1125899906842624)) =
      1131529406376837 / 1125899906842624"
    unfolding r by (rule val_dbl)
qed

lemma half_cent_not_zero: "dbl (1 / 200) \<noteq> 0"
  by (simp add: double_eq_iff val_half_cent zero_double.rep_eq)

lemma sums_entry_half_cent:
  "sum_debits (je_lines entry_half_cent) = Fin (dbl (1131529406376837 / 1125899906842624))"
  "sum_credits (je_lines entry_half_cent) = Fin 1"
  by (simp_all add: sum_debits_def sum_credits_def entry_half_cent_def num_or_zero_def
        half_cent_not_zero add_half_cent(1))

lemma balanced_entry_half_cent: "isBalanced (je_lines entry_half_cent)"
  by (simp add: isBalanced_def totals_sums sums_entry_half_cent add_half_cent(2)
        less_double.rep_eq zero_double.rep_eq one_double.rep_eq print_simps)

lemma exact_entry_half_cent:
  "exact_debits (je_lines entry_half_cent) = Some (1158686112129881211 / 1152921504606846976)"
  "exact_credits (je_lines entry_half_cent) = Some 1"
  by (simp_all add: exact_debits_def exact_credits_def entry_half_cent_def num_or_zero_def
        half_cent_not_zero val_half_cent one_double.rep_eq zero_double.rep_eq)

lemma is_double_big: "is_double 9007199254740992"
  unfolding is_double_iff
  by (rule exI [of _ 4503599627370496], rule exI [of _ 1]) simp

lemma add_big:
  "num_add (Fin (dbl 9007199254740992)) (Fin 1) = Fin (dbl 9007199254740992)"
proof -
  have r: "round_nearest 9007199254740993 = 9007199254740992" by (rule round_big)
  have d: "is_double (round_nearest 9007199254740993)" unfolding r by (rule is_double_big)
  have b: "\<bar>round_nearest 9007199254740993\<bar> < 2 ^ 1024" unfolding r by simp
  then have "\<not> overflow_bound \<le> round_nearest 9007199254740993"
    "\<not> round_nearest 9007199254740993 \<le> - overflow_bound"
    unfolding overflow_bound_def by linarith+
  then have "to_num 9007199254740993 = Fin (dbl 9007199254740993)" by (simp add: to_num_def)
  also have "dbl 9007199254740993 = dbl (round_nearest 9007199254740993)" using d by (rule dbl_round)
  finally have t: "to_num 9007199254740993 = Fin (dbl 9007199254740992)" unfolding r .
  have "val (dbl 9007199254740992) + val 1 = 9007199254740993"
    by (simp add: val_dbl is_double_big one_double.rep_eq)
  then show ?thesis using t by (simp add: num_add.simps(1))
qed

lemma val_big: "val (dbl 9007199254740992) = 9007199254740992"
  using is_double_big by (rule val_dbl)

lemma big_not_zero: "dbl 9007199254740992 \<noteq> 0"
  by (simp add: double_eq_iff val_big zero_double.rep_eq)

lemma sums_entry_big:
  "sum_debits (je_lines entry_big) = Fin (dbl 9007199254740992)"
  "sum_credits (je_lines entry_big) = Fin (dbl 9007199254740992)"
  by (simp_all add: sum_debits_def sum_credits_def entry_big_def num_or_zero_def
        big_not_zero add_big)

lemma balanced_entry_big: "isBalanced (je_lines entry_big)"
  by (simp add: isBalanced_def totals_sums sums_entry_big val_big
        less_double.rep_eq zero_double.rep_eq)

lemma exact_entry_big:
  "exact_debits (je_lines entry_big) = Some 9007199254740993"
  "exact_credits (je_lines entry_big) = Some 9007199254740992"
  by (simp_all add: exact_debits_def exact_credits_def entry_big_def num_or_zero_def
        big_not_zero val_big one_double.rep_eq zero_double.rep_eq)

text \<open>
  C1. Whatever the save operation of either journal modal hands on has a debit sum and
  a credit sum, each added up line by line in the arithmetic of the machine as the
  reduction of the modal does, that are equal after rounding to two decimal places, with
  the debit sum above zero, or that have both overflowed to the positive infinity; and
  every line of it has an account. An entry whose lines are all zero is refused as
  unbalanced, and an entry with a line whose \<open>accountId\<close> is empty is refused.
\<close>

theorem save_accepts_only_balanced:
  "totals (je_lines entry) =
     \<lparr>t_debit = sum_debits (je_lines entry), t_credit = sum_credits (je_lines entry)\<rparr> \<and>
   (handleSave entry = Inr e \<longrightarrow>
      e = entry \<and>
      ((\<exists>d c. sum_debits (je_lines e) = Fin d \<and> sum_credits (je_lines e) = Fin c \<and>
              round2 (val d) = round2 (val c) \<and> 0 < d) \<or>
       (sum_debits (je_lines e) = PInf \<and> sum_credits (je_lines e) = PInf)) \<and>
      (\<forall>l \<in> set (je_lines e). ln_accountId l \<noteq> [])) \<and>
   (ai_handleSave aiEntry sel = Inr (e', sel') \<longrightarrow>
      aiEntry = Some e' \<and> sel' = sel \<and>
      ((\<exists>d c. sum_debits (je_lines e') = Fin d \<and> sum_credits (je_lines e') = Fin c \<and>
              round2 (val d) = round2 (val c) \<and> 0 < d) \<or>
       (sum_debits (je_lines e') = PInf \<and> sum_credits (je_lines e') = PInf)) \<and>
      (\<forall>l \<in> set (je_lines e'). ln_accountId l \<noteq> [])) \<and>
   ((\<forall>l \<in> set (je_lines entry). ln_debit l = Fin 0 \<and> ln_credit l = Fin 0) \<longrightarrow>
      handleSave entry = Inl ''Journal entry must be balanced (debits must equal credits).'' \<and>
      ai_handleSave (Some entry) sel = Inl ''Journal entry must be balanced.'') \<and>
   ((\<exists>l \<in> set (je_lines entry). ln_accountId l = []) \<longrightarrow>
      (\<exists>msg. handleSave entry = Inl msg) \<and> (\<exists>msg. ai_handleSave (Some entry) sel = Inl msg))"
proof (intro conjI impI)
  show "totals (je_lines entry) =
     \<lparr>t_debit = sum_debits (je_lines entry), t_credit = sum_credits (je_lines entry)\<rparr>"
    by (rule totals_sums)
next
  assume a: "handleSave entry = Inr e"
  then show "e = entry" by (auto simp: handleSave_def split: if_splits)
  from a have "isBalanced (je_lines e)" by (auto simp: handleSave_def split: if_splits)
  then show "(\<exists>d c. sum_debits (je_lines e) = Fin d \<and> sum_credits (je_lines e) = Fin c \<and>
              round2 (val d) = round2 (val c) \<and> 0 < d) \<or>
       (sum_debits (je_lines e) = PInf \<and> sum_credits (je_lines e) = PInf)"
    by (rule isBalanced_sound)
  from a show "\<forall>l \<in> set (je_lines e). ln_accountId l \<noteq> []"
    by (auto simp: handleSave_def list_ex_iff split: if_splits)
next
  assume a: "ai_handleSave aiEntry sel = Inr (e', sel')"
  then show "aiEntry = Some e'" "sel' = sel"
    by (auto simp: ai_handleSave_def split: if_splits option.splits)
  from a have "isBalanced (je_lines e')"
    by (auto simp: ai_handleSave_def ai_isBalanced_Some split: if_splits option.splits)
  then show "(\<exists>d c. sum_debits (je_lines e') = Fin d \<and> sum_credits (je_lines e') = Fin c \<and>
              round2 (val d) = round2 (val c) \<and> 0 < d) \<or>
       (sum_debits (je_lines e') = PInf \<and> sum_credits (je_lines e') = PInf)"
    by (rule isBalanced_sound)
  from a show "\<forall>l \<in> set (je_lines e'). ln_accountId l \<noteq> []"
    by (auto simp: ai_handleSave_def list_ex_iff split: if_splits option.splits)
next
  assume "\<forall>l \<in> set (je_lines entry). ln_debit l = Fin 0 \<and> ln_credit l = Fin 0"
  then have "\<not> isBalanced (je_lines entry)"
    by (intro isBalanced_all_zero) (simp add: list_all_iff)
  then show "handleSave entry = Inl ''Journal entry must be balanced (debits must equal credits).''"
    "ai_handleSave (Some entry) sel = Inl ''Journal entry must be balanced.''"
    by (simp_all add: handleSave_def ai_handleSave_def ai_isBalanced_Some)
next
  assume "\<exists>l \<in> set (je_lines entry). ln_accountId l = []"
  then have "list_ex (\<lambda>l. ln_accountId l = []) (je_lines entry)" by (simp add: list_ex_iff)
  then show "\<exists>msg. handleSave entry = Inl msg" "\<exists>msg. ai_handleSave (Some entry) sel = Inl msg"
    by (simp_all add: handleSave_def ai_handleSave_def)
qed

theorem save_accepts_only_balanced_witness:
  "handleSave entry_500 = Inr entry_500 \<and>
   ai_handleSave (Some entry_500) [] = Inr (entry_500, []) \<and>
   totals (je_lines entry_500) = \<lparr>t_debit = Fin (dbl 500), t_credit = Fin (dbl 500)\<rparr> \<and>
   ((\<exists>d c. sum_debits (je_lines entry_500) = Fin d \<and> sum_credits (je_lines entry_500) = Fin c \<and>
           round2 (val d) = round2 (val c) \<and> 0 < d) \<or>
    (sum_debits (je_lines entry_500) = PInf \<and> sum_credits (je_lines entry_500) = PInf)) \<and>
   list_all (\<lambda>l. ln_accountId l \<noteq> []) (je_lines entry_500) \<and>
   handleSave entry_blank = Inl ''Journal entry must be balanced (debits must equal credits).'' \<and>
   ai_handleSave (Some entry_blank) [] = Inl ''Journal entry must be balanced.'' \<and>
   (\<exists>msg. handleSave entry_no_account = Inl msg) \<and>
   (\<exists>msg. ai_handleSave (Some entry_no_account) [] = Inl msg) \<and>
   sum_debits (je_lines entry_unequal) = Fin (dbl 500) \<and>
   sum_credits (je_lines entry_unequal) = Fin (dbl 3) \<and>
   handleSave entry_unequal = Inl ''Journal entry must be balanced (debits must equal credits).'' \<and>
   ai_handleSave (Some entry_unequal) [] = Inl ''Journal entry must be balanced.''"
proof -
  have s: "handleSave entry_500 = Inr entry_500"
    using balanced_entry_500 by (simp add: handleSave_def) (simp add: entry_500_def)
  have a: "ai_handleSave (Some entry_500) [] = Inr (entry_500, [])"
    using balanced_entry_500
    by (simp add: ai_handleSave_def ai_isBalanced_Some) (simp add: entry_500_def)
  have z: "\<forall>l \<in> set (je_lines entry_blank). ln_debit l = Fin 0 \<and> ln_credit l = Fin 0"
    by (simp add: entry_blank_def)
  have n: "\<exists>l \<in> set (je_lines entry_no_account). ln_accountId l = []"
    by (simp add: entry_no_account_def)
  from save_accepts_only_balanced [of entry_500 entry_500 "Some entry_500" "[]" entry_500 "[]"]
    s a
  have p1: "totals (je_lines entry_500) =
       \<lparr>t_debit = sum_debits (je_lines entry_500), t_credit = sum_credits (je_lines entry_500)\<rparr> \<and>
     ((\<exists>d c. sum_debits (je_lines entry_500) = Fin d \<and> sum_credits (je_lines entry_500) = Fin c \<and>
           round2 (val d) = round2 (val c) \<and> 0 < d) \<or>
      (sum_debits (je_lines entry_500) = PInf \<and> sum_credits (je_lines entry_500) = PInf)) \<and>
     (\<forall>l \<in> set (je_lines entry_500). ln_accountId l \<noteq> [])"
    by blast
  from save_accepts_only_balanced [of entry_blank entry_blank None "[]" entry_blank "[]"] z
  have p2: "handleSave entry_blank = Inl ''Journal entry must be balanced (debits must equal credits).'' \<and>
   ai_handleSave (Some entry_blank) [] = Inl ''Journal entry must be balanced.''"
    by blast
  from save_accepts_only_balanced
         [of entry_no_account entry_no_account None "[]" entry_no_account "[]"] n
  have p3: "(\<exists>msg. handleSave entry_no_account = Inl msg) \<and>
   (\<exists>msg. ai_handleSave (Some entry_no_account) [] = Inl msg)"
    by blast
  have u: "handleSave entry_unequal =
      Inl ''Journal entry must be balanced (debits must equal credits).''"
    "ai_handleSave (Some entry_unequal) [] = Inl ''Journal entry must be balanced.''"
    using unbalanced_entry_unequal
    by (simp_all add: handleSave_def ai_handleSave_def ai_isBalanced_Some)
  from p1 p2 p3 s a u show ?thesis
    by (simp add: list_all_iff sums_entry_500 sums_entry_unequal)
qed

text \<open>
  The exact sums of the amounts are not what the modals compare. Debits of \<open>0.005\<close> and
  \<open>1\<close> against a credit of \<open>1\<close> are saved by both modals: the machine adds the debits to
  the double just below \<open>1.005\<close>, which prints \<open>1.00\<close>, while their exact sum rounds to
  \<open>1.01\<close>. Debits of \<open>2^53\<close> and \<open>1\<close> against a credit of \<open>2^53\<close> are saved as well: the
  machine adds the debits to \<open>2^53\<close>, one less than their sum.
\<close>

theorem save_accepts_unequal_exact_sums_counterexample:
  "handleSave entry_half_cent = Inr entry_half_cent \<and>
   ai_handleSave (Some entry_half_cent) [] = Inr (entry_half_cent, []) \<and>
   toFixed2 (sum_debits (je_lines entry_half_cent)) = ''1.00'' \<and>
   toFixed2 (sum_credits (je_lines entry_half_cent)) = ''1.00'' \<and>
   map_option round2 (exact_debits (je_lines entry_half_cent)) = Some (101 / 100) \<and>
   map_option round2 (exact_credits (je_lines entry_half_cent)) = Some 1 \<and>
   handleSave entry_big = Inr entry_big \<and>
   ai_handleSave (Some entry_big) [] = Inr (entry_big, []) \<and>
   sum_debits (je_lines entry_big) = sum_credits (je_lines entry_big) \<and>
   map_option round2 (exact_debits (je_lines entry_big)) = Some 9007199254740993 \<and>
   map_option round2 (exact_credits (je_lines entry_big)) = Some 9007199254740992"
proof -
  have s1: "handleSave entry_half_cent = Inr entry_half_cent"
    using balanced_entry_half_cent by (simp add: handleSave_def) (simp add: entry_half_cent_def)
  have a1: "ai_handleSave (Some entry_half_cent) [] = Inr (entry_half_cent, [])"
    using balanced_entry_half_cent
    by (simp add: ai_handleSave_def ai_isBalanced_Some) (simp add: entry_half_cent_def)
  have s2: "handleSave entry_big = Inr entry_big"
    using balanced_entry_big by (simp add: handleSave_def) (simp add: entry_big_def)
  have a2: "ai_handleSave (Some entry_big) [] = Inr (entry_big, [])"
    using balanced_entry_big
    by (simp add: ai_handleSave_def ai_isBalanced_Some) (simp add: entry_big_def)
  have r1: "round2 (1158686112129881211 / 1152921504606846976) = 101 / 100"
    "round2 1 = 1"
    by (simp_all add: round2_def hundredths_def)
  have r2: "round2 9007199254740993 = 9007199254740993"
    "round2 9007199254740992 = 9007199254740992"
    by (simp_all add: round2_def hundredths_def)
  have p: "toFixed2 (sum_debits (je_lines entry_half_cent)) = ''1.00''"
    "toFixed2 (sum_credits (je_lines entry_half_cent)) = ''1.00''"
    by (simp_all add: sums_entry_half_cent add_half_cent(2) one_double.rep_eq print_simps)
  show ?thesis
    by (simp add: s1 a1 s2 a2 p exact_entry_half_cent exact_entry_big sums_entry_big r1 r2)
qed

subsection \<open>Evaluating the scenario\<close>

lemmas demo_simps = env_demo_def demo_parseFloat_def demo_numToString_def print_simps
  nat_of_string_def digit_val_def is_digit_def is_space_def trim_def dbl_simps

lemma newTransaction_row_pos: "newTransaction env_demo {} row_pos = tx_pos"
  by (simp add: newTransaction_def make_id_def sanitize_amount_def sanitize_type_def
      sanitize_date_def sanitize_description_def type_string_def row_pos_def tx_pos_def
      id_pos_def demo_simps)

lemma s_loaded_eq: "s_loaded = init_state\<lparr>statementTransactions := [tx_pos]\<rparr>"
proof -
  have r: "reconciledTransactions init_state = []" by (simp add: init_state_def)
  have a: "tx_amount tx_pos \<noteq> NaN" by (simp add: tx_pos_def)
  show ?thesis
    by (simp add: s_loaded_def processAndSetTransactions_def r newTransaction_row_pos a)
       (simp add: init_state_def)
qed

lemma s_modal_eq:
  "s_modal = init_state\<lparr>statementTransactions := [tx_pos], selectedTx := {id_pos},
                        journalLinkedTx := Some tx_pos, isJournalModalOpen := True\<rparr>"
  by (simp add: s_modal_def s_ticked_def s_loaded_eq handleSelectTx_def
      handleOpenJournalModal_def init_state_def)

lemma s_ai_open_eq:
  "s_ai_open = init_state\<lparr>statementTransactions := [tx_pos\<lparr>tx_reconciliationStatus := Some Posted\<rparr>],
      journalEntries := [entry_500],
      reconciledTransactions := [newRecon init_state ''je-1'' tx_pos],
      selectedTx := {id_pos}, isAiJournalModalOpen := True\<rparr>"
  by (simp add: s_ai_open_def s_saved_def s_modal_eq handleSaveJournal_def handleAiJournalize_def
      setStatus_def newRecon_def init_state_def)
     (simp add: entry_500_def tx_pos_def)

lemma selected_eq: "selectedTransactions s_ai_open = [tx_pos\<lparr>tx_reconciliationStatus := Some Posted\<rparr>]"
  by (simp add: s_ai_open_eq selectedTransactions_def init_state_def tx_pos_def)

lemma entry_ai_balanced: "isBalanced (je_lines entry_ai)"
  by (simp add: isBalanced_def totals_def entry_ai_def num_or_zero_def dbl_simps)

lemma s_ai_saved_eq:
  "s_ai_saved = init_state\<lparr>statementTransactions := [tx_pos\<lparr>tx_reconciliationStatus := Some Posted\<rparr>],
      journalEntries := [entry_500, entry_ai],
      reconciledTransactions :=
        [newRecon init_state ''je-1'' tx_pos, newRecon init_state ''je-ai'' tx_pos]\<rparr>"
  by (simp add: s_ai_saved_def selected_eq handleSaveAiJournal_def)
     (simp add: s_ai_open_eq newRecon_def setStatus_def init_state_def tx_pos_def entry_ai_def)


lemma s_saved_eq:
  "s_saved = init_state\<lparr>statementTransactions := [tx_pos\<lparr>tx_reconciliationStatus := Some Posted\<rparr>],
      journalEntries := [entry_500],
      reconciledTransactions := [newRecon init_state ''je-1'' tx_pos],
      selectedTx := {id_pos}\<rparr>"
  by (simp add: s_saved_def s_modal_eq handleSaveJournal_def setStatus_def newRecon_def
      init_state_def)
     (simp add: entry_500_def tx_pos_def)

subsection \<open>Links per transaction\<close>

text \<open>
  C2. The claim is that a transaction id never has more than one link and that every
  posting path refuses or skips a transaction that is already linked. The
  single-transaction save checks for an existing link and bulk posting skips posted
  rows, but the AI save path has no such check: in the session above the row is posted
  and linked to \<open>je-1\<close> by the single-transaction path and is still ticked, the AI modal
  accepts the entry, and \<open>handleSaveAiJournal\<close> appends a second link with the same
  transaction id.
\<close>

theorem ai_save_links_posted_transaction_again:
  "ai_handleSave (Some entry_ai) (selectedTransactions s_ai_open)
     = Inr (entry_ai, selectedTransactions s_ai_open) \<and>
   map tx_id (statementTransactions s_ai_open) = [id_pos] \<and>
   map tx_reconciliationStatus (statementTransactions s_ai_open) = [Some Posted] \<and>
   map rt_id (reconciledTransactions s_ai_open) = [id_pos] \<and>
   map rt_id (reconciledTransactions s_ai_saved) = [id_pos, id_pos] \<and>
   map rt_journalEntryId (reconciledTransactions s_ai_saved) = [''je-1'', ''je-ai'']"
proof -
  have "ai_handleSave (Some entry_ai) (selectedTransactions s_ai_open)
     = Inr (entry_ai, selectedTransactions s_ai_open)"
    using entry_ai_balanced by (simp add: ai_handleSave_def ai_isBalanced_Some) (simp add: entry_ai_def)
  moreover have "map tx_id (statementTransactions s_ai_open) = [id_pos]"
    "map tx_reconciliationStatus (statementTransactions s_ai_open) = [Some Posted]"
    "map rt_id (reconciledTransactions s_ai_open) = [id_pos]"
    by (simp_all add: s_ai_open_eq newRecon_def tx_pos_def)
  moreover have "map rt_id (reconciledTransactions s_ai_saved) = [id_pos, id_pos]"
    "map rt_journalEntryId (reconciledTransactions s_ai_saved) = [''je-1'', ''je-ai'']"
    by (simp_all add: s_ai_saved_eq newRecon_def tx_pos_def)
  ultimately show ?thesis by simp
qed

text \<open>
  C3. The claim is that a statement transaction is posted exactly when a link carries its
  id, in every reachable state. Deleting \<open>je-1\<close> in the state reached above sets the
  row back to unposted, while the link to \<open>je-ai\<close> with the row's id remains.
\<close>

theorem delete_unposts_transaction_still_linked:
  "map tx_id (statementTransactions s_deleted) = [id_pos] \<and>
   map tx_reconciliationStatus (statementTransactions s_deleted) = [Some Unposted] \<and>
   map rt_id (reconciledTransactions s_deleted) = [id_pos] \<and>
   map rt_journalEntryId (reconciledTransactions s_deleted) = [''je-ai'']"
  by (simp add: s_deleted_def s_ai_saved_eq handleDeleteJournal_def newRecon_def setStatus_def
       Let_def init_state_def tx_pos_def)

subsection \<open>Deleting a journal entry\<close>

lemma in_image_Collect: "x \<in> f ` {y \<in> S. P y} \<longleftrightarrow> (\<exists>y \<in> S. P y \<and> f y = x)"
  by force

lemma image_Collect_filter: "f ` {y \<in> set xs. P y} = set (map f (filter P xs))"
  by auto

lemma setStatus_empty: "setStatus {} v sts = sts"
  by (simp add: setStatus_def)

lemma length_setStatus: "length (setStatus ids v sts) = length sts"
  by (simp add: setStatus_def)

lemma nth_setStatus:
  "i < length sts \<Longrightarrow>
   setStatus ids v sts ! i =
     (if tx_id (sts ! i) \<in> ids then (sts ! i)\<lparr>tx_reconciliationStatus := Some v\<rparr> else sts ! i)"
  by (simp add: setStatus_def)

lemma delete_entries:
  "journalEntries (handleDeleteJournal True jid s) =
     filter (\<lambda>je. je_id je \<noteq> jid) (journalEntries s)"
  by (simp add: handleDeleteJournal_def Let_def)

lemma delete_links:
  "reconciledTransactions (handleDeleteJournal True jid s) =
     filter (\<lambda>rt. rt_journalEntryId rt \<noteq> jid) (reconciledTransactions s)"
proof (cases "filter (\<lambda>rt. rt_journalEntryId rt = jid) (reconciledTransactions s) = []")
  case True
  then have "\<forall>rt \<in> set (reconciledTransactions s). rt_journalEntryId rt \<noteq> jid"
    by (simp add: filter_empty_conv)
  then have "filter (\<lambda>rt. rt_journalEntryId rt \<noteq> jid) (reconciledTransactions s) =
             reconciledTransactions s"
    by (simp add: filter_id_conv)
  with True show ?thesis by (simp add: handleDeleteJournal_def Let_def)
next
  case False
  then show ?thesis by (simp add: handleDeleteJournal_def Let_def)
qed

lemma delete_statement:
  "statementTransactions (handleDeleteJournal True jid s) =
     setStatus (rt_id ` {rt \<in> set (reconciledTransactions s). rt_journalEntryId rt = jid})
       Unposted (statementTransactions s)"
proof (cases "filter (\<lambda>rt. rt_journalEntryId rt = jid) (reconciledTransactions s) = []")
  case True
  then have e: "rt_id ` {rt \<in> set (reconciledTransactions s). rt_journalEntryId rt = jid} = {}"
    by (auto simp: filter_empty_conv)
  have "statementTransactions (handleDeleteJournal True jid s) = statementTransactions s"
    using True by (simp add: handleDeleteJournal_def Let_def)
  then show ?thesis by (simp only: e setStatus_empty)
next
  case False
  then show ?thesis by (simp add: handleDeleteJournal_def Let_def)
qed

lemma delete_other_state:
  "accounts (handleDeleteJournal c jid s) = accounts s"
  by (simp add: handleDeleteJournal_def Let_def)

text \<open>
  C4. A confirmed deletion removes the entry, removes every link whose \<open>journalEntryId\<close>
  is the entry's id, however many there are, and sets every statement transaction whose
  id one of those links carried to unposted, leaving the others as they were; all of it
  is one state transition. A deletion the user does not confirm leaves the state as it
  was.
\<close>

theorem delete_cascade:
  "journalEntries (handleDeleteJournal True jid s) = filter (\<lambda>je. je_id je \<noteq> jid) (journalEntries s) \<and>
   reconciledTransactions (handleDeleteJournal True jid s) =
     filter (\<lambda>rt. rt_journalEntryId rt \<noteq> jid) (reconciledTransactions s) \<and>
   (\<forall>je \<in> set (journalEntries (handleDeleteJournal True jid s)). je_id je \<noteq> jid) \<and>
   (\<forall>rt \<in> set (reconciledTransactions (handleDeleteJournal True jid s)). rt_journalEntryId rt \<noteq> jid) \<and>
   length (statementTransactions (handleDeleteJournal True jid s)) = length (statementTransactions s) \<and>
   (\<forall>i < length (statementTransactions s).
      statementTransactions (handleDeleteJournal True jid s) ! i =
        (if \<exists>rt \<in> set (reconciledTransactions s).
              rt_journalEntryId rt = jid \<and> rt_id rt = tx_id (statementTransactions s ! i)
         then (statementTransactions s ! i)\<lparr>tx_reconciliationStatus := Some Unposted\<rparr>
         else statementTransactions s ! i)) \<and>
   accounts (handleDeleteJournal True jid s) = accounts s \<and>
   handleDeleteJournal False jid s = s"
proof (intro conjI)
  show "journalEntries (handleDeleteJournal True jid s) =
          filter (\<lambda>je. je_id je \<noteq> jid) (journalEntries s)"
    by (rule delete_entries)
  show "reconciledTransactions (handleDeleteJournal True jid s) =
          filter (\<lambda>rt. rt_journalEntryId rt \<noteq> jid) (reconciledTransactions s)"
    by (rule delete_links)
  show "\<forall>je \<in> set (journalEntries (handleDeleteJournal True jid s)). je_id je \<noteq> jid"
    by (simp add: delete_entries)
  show "\<forall>rt \<in> set (reconciledTransactions (handleDeleteJournal True jid s)).
          rt_journalEntryId rt \<noteq> jid"
    by (simp add: delete_links)
  show "length (statementTransactions (handleDeleteJournal True jid s)) =
          length (statementTransactions s)"
    by (simp add: delete_statement length_setStatus)
  show "\<forall>i < length (statementTransactions s).
      statementTransactions (handleDeleteJournal True jid s) ! i =
        (if \<exists>rt \<in> set (reconciledTransactions s).
              rt_journalEntryId rt = jid \<and> rt_id rt = tx_id (statementTransactions s ! i)
         then (statementTransactions s ! i)\<lparr>tx_reconciliationStatus := Some Unposted\<rparr>
         else statementTransactions s ! i)"
  proof (intro allI impI)
    fix i
    assume i: "i < length (statementTransactions s)"
    have m: "tx_id (statementTransactions s ! i)
               \<in> rt_id ` {rt \<in> set (reconciledTransactions s). rt_journalEntryId rt = jid} \<longleftrightarrow>
             (\<exists>rt \<in> set (reconciledTransactions s).
                rt_journalEntryId rt = jid \<and> rt_id rt = tx_id (statementTransactions s ! i))"
      by (rule in_image_Collect)
    show "statementTransactions (handleDeleteJournal True jid s) ! i =
        (if \<exists>rt \<in> set (reconciledTransactions s).
              rt_journalEntryId rt = jid \<and> rt_id rt = tx_id (statementTransactions s ! i)
         then (statementTransactions s ! i)\<lparr>tx_reconciliationStatus := Some Unposted\<rparr>
         else statementTransactions s ! i)"
      unfolding delete_statement nth_setStatus [OF i] m ..
  qed
  show "accounts (handleDeleteJournal True jid s) = accounts s"
    by (rule delete_other_state)
  show "handleDeleteJournal False jid s = s"
    by (simp add: handleDeleteJournal_def)
qed


lemma s_consolidated_eq:
  "s_consolidated =
     init_state\<lparr>statementTransactions :=
                  [tx_pos\<lparr>tx_reconciliationStatus := Some Posted\<rparr>,
                   tx_fee\<lparr>tx_reconciliationStatus := Some Posted\<rparr>, tx_zero],
                journalEntries := [entry_ai],
                reconciledTransactions :=
                  [newRecon init_state ''je-ai'' tx_pos, newRecon init_state ''je-ai'' tx_fee]\<rparr>"
  by (simp add: s_consolidated_def handleSaveAiJournal_def setStatus_def newRecon_def
      init_state_def)
     (simp add: entry_ai_def tx_pos_def tx_fee_def tx_zero_def id_pos_def id_fee_def)

theorem delete_cascade_witness:
  "map tx_reconciliationStatus (statementTransactions s_consolidated) =
     [Some Posted, Some Posted, Some Unposted] \<and>
   map rt_journalEntryId (reconciledTransactions s_consolidated) = [''je-ai'', ''je-ai''] \<and>
   journalEntries (handleDeleteJournal True ''je-ai'' s_consolidated) = [] \<and>
   reconciledTransactions (handleDeleteJournal True ''je-ai'' s_consolidated) = [] \<and>
   statementTransactions (handleDeleteJournal True ''je-ai'' s_consolidated) =
     [tx_pos, tx_fee, tx_zero] \<and>
   handleDeleteJournal False ''je-ai'' s_consolidated = s_consolidated"
proof -
  note c = delete_cascade [of "''je-ai''" s_consolidated]
  have je: "journalEntries s_consolidated = [entry_ai]"
    by (simp add: s_consolidated_eq)
  have rt: "reconciledTransactions s_consolidated =
              [newRecon init_state ''je-ai'' tx_pos, newRecon init_state ''je-ai'' tx_fee]"
    by (simp add: s_consolidated_eq)
  have st: "statementTransactions s_consolidated =
              [tx_pos\<lparr>tx_reconciliationStatus := Some Posted\<rparr>,
               tx_fee\<lparr>tx_reconciliationStatus := Some Posted\<rparr>, tx_zero]"
    by (simp add: s_consolidated_eq)
  from c have "journalEntries (handleDeleteJournal True ''je-ai'' s_consolidated) =
      filter (\<lambda>je. je_id je \<noteq> ''je-ai'') (journalEntries s_consolidated)"
    by (rule conjunct1)
  then have e: "journalEntries (handleDeleteJournal True ''je-ai'' s_consolidated) = []"
    by (simp add: je entry_ai_def)
  from c have "reconciledTransactions (handleDeleteJournal True ''je-ai'' s_consolidated) =
      filter (\<lambda>rt. rt_journalEntryId rt \<noteq> ''je-ai'') (reconciledTransactions s_consolidated)"
    by (rule conjunct2 [THEN conjunct1])
  then have r: "reconciledTransactions (handleDeleteJournal True ''je-ai'' s_consolidated) = []"
    by (simp add: rt newRecon_def)
  have "map rt_id (filter (\<lambda>rt. rt_journalEntryId rt = ''je-ai'')
                     (reconciledTransactions s_consolidated)) = [id_pos, id_fee]"
    by (simp add: rt newRecon_def tx_pos_def tx_fee_def)
  then have ids: "rt_id ` {rt \<in> set (reconciledTransactions s_consolidated).
                      rt_journalEntryId rt = ''je-ai''} = {id_pos, id_fee}"
    unfolding image_Collect_filter by simp
  have t: "statementTransactions (handleDeleteJournal True ''je-ai'' s_consolidated) =
     [tx_pos, tx_fee, tx_zero]"
    unfolding delete_statement ids st
    by (simp add: setStatus_def tx_pos_def tx_fee_def tx_zero_def id_pos_def id_fee_def)
  have f: "handleDeleteJournal False ''je-ai'' s_consolidated = s_consolidated"
    by (simp add: handleDeleteJournal_def)
  have b: "map tx_reconciliationStatus (statementTransactions s_consolidated) =
     [Some Posted, Some Posted, Some Unposted]"
    "map rt_journalEntryId (reconciledTransactions s_consolidated) = [''je-ai'', ''je-ai'']"
    by (simp_all add: st rt newRecon_def tx_zero_def)
  from b e r t f show ?thesis by blast
qed

subsection \<open>Line updates\<close>

lemma updatedLine_both_sides:
  "update_amount_ok upd \<Longrightarrow> \<not> both_sides l \<Longrightarrow> \<not> both_sides (updatedLine upd l)"
proof (cases upd)
  case (Set_debit v)
  assume "update_amount_ok upd" "\<not> both_sides l"
  with Set_debit show ?thesis by (cases v) (auto simp: both_sides_def)
next
  case (Set_credit v)
  assume "update_amount_ok upd" "\<not> both_sides l"
  with Set_credit show ?thesis by (cases v) (auto simp: both_sides_def)
qed (auto simp: both_sides_def)

lemma in_handleUpdateLine:
  assumes "l \<in> set (je_lines (handleUpdateLine lineId upd entry))"
  obtains l0 where "l0 \<in> set (je_lines entry)"
    and "l = (if ln_id l0 \<noteq> lineId then l0 else updatedLine upd l0)"
proof -
  from assms have
    "l \<in> (\<lambda>line. if ln_id line \<noteq> lineId then line else updatedLine upd line) ` set (je_lines entry)"
    by (simp add: handleUpdateLine_def)
  then show ?thesis using that by blast
qed

text \<open>
  C6, as amended. After the line update sets the debit of a line to \<open>x > 0\<close> the credit of
  that line is \<open>0\<close>, and after it sets the credit to \<open>x > 0\<close> the debit is \<open>0\<close>, in both
  modals. If no line of the entry carries both sides, none does after a line update whose
  amount is not negative.
\<close>

theorem update_line_clears_other_side:
  "(num_gt0 x \<longrightarrow>
      (\<forall>l \<in> set (je_lines (handleUpdateLine lineId (Set_debit x) entry)).
         ln_id l = lineId \<longrightarrow> ln_debit l = x \<and> ln_credit l = Fin 0)) \<and>
   (num_gt0 x \<longrightarrow>
      (\<forall>l \<in> set (je_lines (handleUpdateLine lineId (Set_credit x) entry)).
         ln_id l = lineId \<longrightarrow> ln_credit l = x \<and> ln_debit l = Fin 0)) \<and>
   (update_amount_ok upd \<and> (\<forall>l \<in> set (je_lines entry). \<not> both_sides l) \<longrightarrow>
      (\<forall>l \<in> set (je_lines (handleUpdateLine lineId upd entry)). \<not> both_sides l)) \<and>
   ai_handleUpdateLine lineId upd (Some entry) = Some (handleUpdateLine lineId upd entry)"
proof (intro conjI)
  show "num_gt0 x \<longrightarrow>
      (\<forall>l \<in> set (je_lines (handleUpdateLine lineId (Set_debit x) entry)).
         ln_id l = lineId \<longrightarrow> ln_debit l = x \<and> ln_credit l = Fin 0)"
  proof (rule impI, rule ballI, rule impI)
    fix l
    assume g: "num_gt0 x"
      and l: "l \<in> set (je_lines (handleUpdateLine lineId (Set_debit x) entry))"
      and i: "ln_id l = lineId"
    from l obtain l0 where l0: "l0 \<in> set (je_lines entry)"
      and eq: "l = (if ln_id l0 \<noteq> lineId then l0 else updatedLine (Set_debit x) l0)"
      by (rule in_handleUpdateLine)
    show "ln_debit l = x \<and> ln_credit l = Fin 0"
    proof (cases "ln_id l0 \<noteq> lineId")
      case True
      with eq i show ?thesis by simp
    next
      case False
      with eq g show ?thesis by simp
    qed
  qed
next
  show "num_gt0 x \<longrightarrow>
      (\<forall>l \<in> set (je_lines (handleUpdateLine lineId (Set_credit x) entry)).
         ln_id l = lineId \<longrightarrow> ln_credit l = x \<and> ln_debit l = Fin 0)"
  proof (rule impI, rule ballI, rule impI)
    fix l
    assume g: "num_gt0 x"
      and l: "l \<in> set (je_lines (handleUpdateLine lineId (Set_credit x) entry))"
      and i: "ln_id l = lineId"
    from l obtain l0 where l0: "l0 \<in> set (je_lines entry)"
      and eq: "l = (if ln_id l0 \<noteq> lineId then l0 else updatedLine (Set_credit x) l0)"
      by (rule in_handleUpdateLine)
    show "ln_credit l = x \<and> ln_debit l = Fin 0"
    proof (cases "ln_id l0 \<noteq> lineId")
      case True
      with eq i show ?thesis by simp
    next
      case False
      with eq g show ?thesis by simp
    qed
  qed
next
  show "update_amount_ok upd \<and> (\<forall>l \<in> set (je_lines entry). \<not> both_sides l) \<longrightarrow>
      (\<forall>l \<in> set (je_lines (handleUpdateLine lineId upd entry)). \<not> both_sides l)"
  proof (rule impI, rule ballI)
    fix l
    assume a: "update_amount_ok upd \<and> (\<forall>l \<in> set (je_lines entry). \<not> both_sides l)"
      and l: "l \<in> set (je_lines (handleUpdateLine lineId upd entry))"
    from l obtain l0 where l0: "l0 \<in> set (je_lines entry)"
      and eq: "l = (if ln_id l0 \<noteq> lineId then l0 else updatedLine upd l0)"
      by (rule in_handleUpdateLine)
    from a l0 have n: "\<not> both_sides l0" by blast
    show "\<not> both_sides l"
    proof (cases "ln_id l0 \<noteq> lineId")
      case True
      with eq n show ?thesis by simp
    next
      case False
      with eq have "l = updatedLine upd l0" by simp
      with a n show ?thesis using updatedLine_both_sides by blast
    qed
  qed
next
  show "ai_handleUpdateLine lineId upd (Some entry) = Some (handleUpdateLine lineId upd entry)"
    by (simp add: ai_handleUpdateLine_def)
qed

theorem update_line_clears_other_side_witness:
  "map (\<lambda>l. (ln_debit l, ln_credit l))
     (je_lines (handleUpdateLine ''l1'' (Set_debit (Fin (dbl 70))) entry_500))
     = [(Fin (dbl 70), Fin 0), (Fin (dbl 500), Fin 0)] \<and>
   map (\<lambda>l. (ln_debit l, ln_credit l))
     (je_lines (handleUpdateLine ''l2'' (Set_credit (Fin (dbl 70))) entry_500))
     = [(Fin 0, Fin (dbl 500)), (Fin 0, Fin (dbl 70))] \<and>
   list_all (\<lambda>l. \<not> both_sides l)
     (je_lines (handleUpdateLine ''l1'' (Set_debit (Fin (dbl 70))) entry_500))"
proof -
  have g: "num_gt0 (Fin (dbl 70))" by (simp add: dbl_simps)
  have ok: "update_amount_ok (Set_debit (Fin (dbl 70))) \<and>
            (\<forall>l \<in> set (je_lines entry_500). \<not> both_sides l)"
    by (simp add: entry_500_def both_sides_def dbl_simps)
  from update_line_clears_other_side [of "Fin (dbl 70)" "''l1''" entry_500 "Set_debit (Fin (dbl 70))"] g ok
  have p: "list_all (\<lambda>l. \<not> both_sides l)
     (je_lines (handleUpdateLine ''l1'' (Set_debit (Fin (dbl 70))) entry_500))"
    unfolding list_all_iff by blast
  have q: "map (\<lambda>l. (ln_debit l, ln_credit l))
     (je_lines (handleUpdateLine ''l1'' (Set_debit (Fin (dbl 70))) entry_500))
     = [(Fin (dbl 70), Fin 0), (Fin (dbl 500), Fin 0)]"
    by (simp add: handleUpdateLine_def entry_500_def dbl_simps)
  have r: "map (\<lambda>l. (ln_debit l, ln_credit l))
     (je_lines (handleUpdateLine ''l2'' (Set_credit (Fin (dbl 70))) entry_500))
     = [(Fin 0, Fin (dbl 500)), (Fin 0, Fin (dbl 70))]"
    by (simp add: handleUpdateLine_def entry_500_def dbl_simps)
  from p q r show ?thesis by blast
qed

text \<open>
  Lines with an amount on both sides do occur: the line mapping of the memo suggestion
  keeps both amounts of a suggested line, and an update to a negative debit leaves the
  credit of the line as it is.
\<close>

theorem line_with_both_sides_counterexample:
  "map (\<lambda>l. (ln_debit l, ln_credit l)) (mapAiLines env_demo uuid_demo [ai_line_both])
     = [(Fin (dbl 100), Fin (dbl 100))] \<and>
   map (\<lambda>l. (ln_debit l, ln_credit l))
     (je_lines (handleUpdateLine ''l1'' (Set_debit (Fin (dbl (- 5)))) entry_500))
     = [(Fin (dbl (- 5)), Fin (dbl 500)), (Fin (dbl 500), Fin 0)]"
proof -
  have a: "map (\<lambda>l. (ln_debit l, ln_credit l)) (mapAiLines env_demo uuid_demo [ai_line_both])
     = [(Fin (dbl 100), Fin (dbl 100))]"
    by (simp add: mapAiLines_def ai_line_both_def number_or_zero_def dbl_simps)
  have b: "map (\<lambda>l. (ln_debit l, ln_credit l))
     (je_lines (handleUpdateLine ''l1'' (Set_debit (Fin (dbl (- 5)))) entry_500))
     = [(Fin (dbl (- 5)), Fin (dbl 500)), (Fin (dbl 500), Fin 0)]"
    by (simp add: handleUpdateLine_def entry_500_def dbl_simps)
  from a b show ?thesis by blast
qed

subsection \<open>Importing accounts\<close>

lemma in_set_enumerate_snd: "(i, x) \<in> set (enumerate n xs) \<Longrightarrow> x \<in> set xs"
  by (metis in_set_zipE enumerate_eq_zip)

lemma row_account_importedAccount: "row_account env row (importedAccount env now i row)"
  by (simp add: row_account_def importedAccount_def)

lemma importedAccounts_from_row:
  assumes "a \<in> set (importedAccounts env now data)"
  shows "\<exists>row \<in> set data. row_complete row \<and> row_account env row a"
proof -
  from assms obtain i row where ir: "(i, row) \<in> set (enumerate 0 (filter row_complete data))"
    and a: "a = importedAccount env now i row"
    by (auto simp: importedAccounts_def)
  from ir have "row \<in> set (filter row_complete data)" by (rule in_set_enumerate_snd)
  then have "row \<in> set data" "row_complete row" by simp_all
  with a show ?thesis using row_account_importedAccount by blast
qed

lemma importedAccounts_of_row:
  assumes "row \<in> set data" "row_complete row"
  shows "\<exists>a \<in> set (importedAccounts env now data). row_account env row a"
proof -
  from assms have "row \<in> set (filter row_complete data)" by simp
  then obtain i where i: "i < length (filter row_complete data)"
    and r: "filter row_complete data ! i = row"
    unfolding in_set_conv_nth by blast
  then have "(i, row) \<in> set (enumerate 0 (filter row_complete data))"
    by (auto simp: in_set_enumerate_eq)
  then have "(\<lambda>(index, row). importedAccount env now index row) (i, row)
               \<in> set (importedAccounts env now data)"
    unfolding importedAccounts_def set_map by (rule imageI)
  then have "importedAccount env now i row \<in> set (importedAccounts env now data)" by simp
  then show ?thesis using row_account_importedAccount by blast
qed

text \<open>
  C7, as amended. The import keeps the existing accounts as they are and appends new ones.
  Every appended account comes from a row with at least three cells whose first three are
  truthy, and its code is the code of no existing account; every such row whose trimmed
  code is the code of no existing account is appended. A row shorter than three cells, or
  with an empty, zero or \<open>NaN\<close> cell among the first three, is not imported. Rows are
  compared with the accounts present before the import only, not with each other.
\<close>

theorem import_rows_against_existing:
  "fst (parseAndImportData env now data accs) = accs @ uniqueImported env now data accs \<and>
   snd (parseAndImportData env now data accs) =
     string_of_nat (length (uniqueImported env now data accs)) @ '' new accounts imported.'' \<and>
   (\<forall>a \<in> set (uniqueImported env now data accs).
      (\<exists>row \<in> set data. row_complete row \<and> row_account env row a) \<and>
      (\<forall>exist \<in> set accs. acc_code exist \<noteq> acc_code a)) \<and>
   (\<forall>row \<in> set data.
      row_complete row \<and>
      (\<forall>exist \<in> set accs. acc_code exist \<noteq> trim (js_String env (cell_val (row ! 0)))) \<longrightarrow>
      (\<exists>a \<in> set (uniqueImported env now data accs). row_account env row a)) \<and>
   (\<forall>row. length row < 3 \<or>
      (\<exists>i < 3. row ! i = CStr [] \<or> row ! i = CNum (Fin 0) \<or> row ! i = CNum NaN)
      \<longrightarrow> \<not> row_complete row)"
proof (intro conjI)
  show "fst (parseAndImportData env now data accs) = accs @ uniqueImported env now data accs"
    by (simp add: parseAndImportData_def)
  show "snd (parseAndImportData env now data accs) =
     string_of_nat (length (uniqueImported env now data accs)) @ '' new accounts imported.''"
    by (simp add: parseAndImportData_def)
  show "\<forall>a \<in> set (uniqueImported env now data accs).
      (\<exists>row \<in> set data. row_complete row \<and> row_account env row a) \<and>
      (\<forall>exist \<in> set accs. acc_code exist \<noteq> acc_code a)"
  proof
    fix a
    assume "a \<in> set (uniqueImported env now data accs)"
    then have i: "a \<in> set (importedAccounts env now data)"
      and n: "\<not> list_ex (\<lambda>exist. acc_code exist = acc_code a) accs"
      by (simp_all add: uniqueImported_def)
    from n have "\<forall>exist \<in> set accs. acc_code exist \<noteq> acc_code a"
      by (simp add: list_ex_iff)
    with importedAccounts_from_row [OF i]
    show "(\<exists>row \<in> set data. row_complete row \<and> row_account env row a) \<and>
      (\<forall>exist \<in> set accs. acc_code exist \<noteq> acc_code a)"
      by blast
  qed
  show "\<forall>row \<in> set data.
      row_complete row \<and>
      (\<forall>exist \<in> set accs. acc_code exist \<noteq> trim (js_String env (cell_val (row ! 0)))) \<longrightarrow>
      (\<exists>a \<in> set (uniqueImported env now data accs). row_account env row a)"
  proof (rule ballI, rule impI)
    fix row
    assume r: "row \<in> set data"
      and c: "row_complete row \<and>
        (\<forall>exist \<in> set accs. acc_code exist \<noteq> trim (js_String env (cell_val (row ! 0))))"
    from r c obtain a where a: "a \<in> set (importedAccounts env now data)"
      and ra: "row_account env row a"
      using importedAccounts_of_row by blast
    from ra c have "\<not> list_ex (\<lambda>exist. acc_code exist = acc_code a) accs"
      by (simp add: list_ex_iff row_account_def)
    with a have "a \<in> set (uniqueImported env now data accs)"
      by (simp add: uniqueImported_def)
    with ra show "\<exists>a \<in> set (uniqueImported env now data accs). row_account env row a"
      by blast
  qed
  show "\<forall>row. length row < 3 \<or>
      (\<exists>i < 3. row ! i = CStr [] \<or> row ! i = CNum (Fin 0) \<or> row ! i = CNum NaN)
      \<longrightarrow> \<not> row_complete row"
  proof (intro allI impI)
    fix row :: "cell list"
    assume "length row < 3 \<or>
      (\<exists>i < 3. row ! i = CStr [] \<or> row ! i = CNum (Fin 0) \<or> row ! i = CNum NaN)"
    then show "\<not> row_complete row"
    proof
      assume "length row < 3"
      then show ?thesis by (simp add: row_complete_def)
    next
      assume "\<exists>i < 3. row ! i = CStr [] \<or> row ! i = CNum (Fin 0) \<or> row ! i = CNum NaN"
      then obtain i where "i < 3" and f: "\<not> truthy (cell_val (row ! i))" by auto
      then have "i = 0 \<or> i = 1 \<or> i = 2" by arith
      with f show ?thesis by (auto simp: row_complete_def)
    qed
  qed
qed

theorem import_rows_against_existing_witness:
  "map acc_code (fst (parseAndImportData env_demo now_demo rows_mixed DEFAULT_ACCOUNTS)) =
     map acc_code DEFAULT_ACCOUNTS @ [''7010''] \<and>
   snd (parseAndImportData env_demo now_demo rows_mixed DEFAULT_ACCOUNTS) =
     ''1 new accounts imported.'' \<and>
   list_all (\<lambda>a. list_all (\<lambda>exist. acc_code exist \<noteq> acc_code a) DEFAULT_ACCOUNTS)
     (uniqueImported env_demo now_demo rows_mixed DEFAULT_ACCOUNTS)"
proof -
  note t = import_rows_against_existing [of env_demo now_demo rows_mixed DEFAULT_ACCOUNTS]
  have u: "map acc_code (uniqueImported env_demo now_demo rows_mixed DEFAULT_ACCOUNTS) = [''7010'']"
    by (simp add: uniqueImported_def importedAccounts_def importedAccount_def rows_mixed_def
        row_complete_def DEFAULT_ACCOUNTS_def UNCATEGORIZED_CODE_def demo_simps)
  then have n: "length (uniqueImported env_demo now_demo rows_mixed DEFAULT_ACCOUNTS) = 1"
    by (metis length_map length_Cons list.size(3) One_nat_def)
  from t u have a:
    "map acc_code (fst (parseAndImportData env_demo now_demo rows_mixed DEFAULT_ACCOUNTS)) =
     map acc_code DEFAULT_ACCOUNTS @ [''7010'']"
    by simp
  from t n have b: "snd (parseAndImportData env_demo now_demo rows_mixed DEFAULT_ACCOUNTS) =
     ''1 new accounts imported.''"
    by (simp add: print_simps)
  from t have c:
    "list_all (\<lambda>a. list_all (\<lambda>exist. acc_code exist \<noteq> acc_code a) DEFAULT_ACCOUNTS)
     (uniqueImported env_demo now_demo rows_mixed DEFAULT_ACCOUNTS)"
    unfolding list_all_iff by blast
  from a b c show ?thesis by blast
qed

text \<open>
  The two rows with code \<open>1000\<close>, imported into a chart that has no such code, are both
  appended.
\<close>

theorem import_duplicate_rows_counterexample:
  "list_all (\<lambda>a. acc_code a \<noteq> ''1000'') DEFAULT_ACCOUNTS \<and>
   map acc_code (fst (parseAndImportData env_demo now_demo rows_1000 DEFAULT_ACCOUNTS)) =
     map acc_code DEFAULT_ACCOUNTS @ [''1000'', ''1000''] \<and>
   map acc_name (fst (parseAndImportData env_demo now_demo rows_1000 DEFAULT_ACCOUNTS)) =
     map acc_name DEFAULT_ACCOUNTS @ [''Cash'', ''Cash Dup''] \<and>
   snd (parseAndImportData env_demo now_demo rows_1000 DEFAULT_ACCOUNTS) =
     ''2 new accounts imported.''"
  by (simp add: parseAndImportData_def uniqueImported_def importedAccounts_def importedAccount_def rows_1000_def
      row_complete_def DEFAULT_ACCOUNTS_def UNCATEGORIZED_CODE_def now_demo_def demo_simps)

subsection \<open>Editing an entry\<close>

text \<open>
  C8. Saving an entry whose id is already among the journal entries replaces the entries
  of that id by the saved one and leaves every other entry, the links and the statement
  transactions as they were.
\<close>

theorem edit_replaces_entry_only:
  assumes "list_ex (\<lambda>je. je_id je = je_id entry) (journalEntries s)"
  shows "reconciledTransactions (handleSaveJournal entry s) = reconciledTransactions s \<and>
         statementTransactions (handleSaveJournal entry s) = statementTransactions s \<and>
         accounts (handleSaveJournal entry s) = accounts s \<and>
         length (journalEntries (handleSaveJournal entry s)) = length (journalEntries s) \<and>
         (\<forall>i < length (journalEntries s).
            journalEntries (handleSaveJournal entry s) ! i =
              (if je_id (journalEntries s ! i) = je_id entry then entry else journalEntries s ! i))"
  using assms by (simp add: handleSaveJournal_def)

theorem edit_replaces_entry_only_witness:
  "list_ex (\<lambda>je. je_id je = je_id entry_500_edited) (journalEntries s_saved) \<and>
   journalEntries (handleSaveJournal entry_500_edited s_saved) = [entry_500_edited] \<and>
   reconciledTransactions (handleSaveJournal entry_500_edited s_saved) =
     [newRecon init_state ''je-1'' tx_pos] \<and>
   statementTransactions (handleSaveJournal entry_500_edited s_saved) =
     [tx_pos\<lparr>tx_reconciliationStatus := Some Posted\<rparr>]"
proof -
  have h: "list_ex (\<lambda>je. je_id je = je_id entry_500_edited) (journalEntries s_saved)"
    by (simp add: s_saved_eq entry_500_edited_def)
  note t = edit_replaces_entry_only [OF h]
  have l: "length (journalEntries s_saved) = 1" by (simp add: s_saved_eq)
  from t l have "length (journalEntries (handleSaveJournal entry_500_edited s_saved)) = 1"
    and "journalEntries (handleSaveJournal entry_500_edited s_saved) ! 0 = entry_500_edited"
    by (simp_all add: s_saved_eq entry_500_edited_def)
  then have e: "journalEntries (handleSaveJournal entry_500_edited s_saved) = [entry_500_edited]"
    by (simp add: list_eq_iff_nth_eq)
  from t have r: "reconciledTransactions (handleSaveJournal entry_500_edited s_saved) =
     [newRecon init_state ''je-1'' tx_pos]"
    and st: "statementTransactions (handleSaveJournal entry_500_edited s_saved) =
     [tx_pos\<lparr>tx_reconciliationStatus := Some Posted\<rparr>]"
    by (simp_all add: s_saved_eq)
  from h e r st show ?thesis by blast
qed

subsection \<open>Bulk posting without the suspense account\<close>

text \<open>
  C9, as amended. If no account has the code \<open>0000\<close>, bulk posting creates no journal
  entry and no link and changes no statement transaction. When at least one transaction
  is given and a bank account is selected it sets the error message and changes nothing
  else; when no transaction is given or no bank account is selected it returns the state
  as it was, without a message.
\<close>

theorem post_without_suspense_account:
  assumes "\<forall>a \<in> set (accounts s). acc_code a \<noteq> ''0000''"
  shows "journalEntries (handlePostToCashbook uuid txsToPost s) = journalEntries s \<and>
         reconciledTransactions (handlePostToCashbook uuid txsToPost s) = reconciledTransactions s \<and>
         statementTransactions (handlePostToCashbook uuid txsToPost s) = statementTransactions s \<and>
         accounts (handlePostToCashbook uuid txsToPost s) = accounts s \<and>
         (txsToPost \<noteq> [] \<and> selectedBankAccountId s \<noteq> [] \<longrightarrow>
            handlePostToCashbook uuid txsToPost s =
              s\<lparr>error := Some ''Uncategorized suspense account not found!''\<rparr>) \<and>
         (txsToPost = [] \<or> selectedBankAccountId s = [] \<longrightarrow>
            handlePostToCashbook uuid txsToPost s = s)"
proof -
  from assms have "find (\<lambda>a. acc_code a = UNCATEGORIZED_CODE) (accounts s) = None"
    by (simp add: find_None_iff UNCATEGORIZED_CODE_def)
  then show ?thesis by (simp add: handlePostToCashbook_def)
qed

lemma no_suspense: "\<forall>a \<in> set (accounts s_no_suspense). acc_code a \<noteq> ''0000''"
  by (simp add: s_no_suspense_def accounts_no_suspense_def DEFAULT_ACCOUNTS_def init_state_def)

theorem post_without_suspense_account_witness:
  "handlePostToCashbook uuid_demo [tx_pos] s_no_suspense =
     s_no_suspense\<lparr>error := Some ''Uncategorized suspense account not found!''\<rparr> \<and>
   journalEntries (handlePostToCashbook uuid_demo [tx_pos] s_no_suspense) = [] \<and>
   reconciledTransactions (handlePostToCashbook uuid_demo [tx_pos] s_no_suspense) = [] \<and>
   statementTransactions (handlePostToCashbook uuid_demo [tx_pos] s_no_suspense) = [tx_pos]"
proof -
  have b: "[tx_pos] \<noteq> [] \<and> selectedBankAccountId s_no_suspense \<noteq> []"
    by (simp add: s_no_suspense_def init_state_def)
  from post_without_suspense_account [OF no_suspense, of uuid_demo "[tx_pos]"] b
  show ?thesis by (simp add: s_no_suspense_def init_state_def)
qed

text \<open>
  Without a selected bank account, or with no transaction given, no error is reported even
  though the chart has no suspense account.
\<close>

theorem post_without_suspense_silent_counterexample:
  "list_all (\<lambda>a. acc_code a \<noteq> ''0000'') (accounts s_no_suspense_no_bank) \<and>
   error s_no_suspense_no_bank = None \<and>
   error (handlePostToCashbook uuid_demo [tx_pos] s_no_suspense_no_bank) = None \<and>
   list_all (\<lambda>a. acc_code a \<noteq> ''0000'') (accounts s_no_suspense) \<and>
   error s_no_suspense = None \<and>
   error (handlePostToCashbook uuid_demo [] s_no_suspense) = None"
  by (simp add: handlePostToCashbook_def s_no_suspense_no_bank_def s_no_suspense_def
      accounts_no_suspense_def DEFAULT_ACCOUNTS_def init_state_def)

subsection \<open>Transaction ids\<close>

lemma newTransaction_fields:
  "tx_date (newTransaction env ids tx) = sanitize_date env tx \<and>
   tx_description (newTransaction env ids tx) = sanitize_description env tx \<and>
   tx_amount (newTransaction env ids tx) = sanitize_amount env tx \<and>
   tx_type (newTransaction env ids tx) = sanitize_type env tx \<and>
   tx_id (newTransaction env ids tx) =
     make_id env (sanitize_date env tx) (sanitize_description env tx)
       (sanitize_amount env tx) (sanitize_type env tx) \<and>
   tx_reconciliationStatus (newTransaction env ids tx) =
     Some (if tx_id (newTransaction env ids tx) \<in> ids then Posted else Unposted) \<and>
   tx_notes (newTransaction env ids tx) = None"
  by (simp add: newTransaction_def Let_def)

lemma newTransaction_cong:
  assumes "sanitize_date env a = sanitize_date env b"
    and "sanitize_description env a = sanitize_description env b"
    and "sanitize_amount env a = sanitize_amount env b"
    and "sanitize_type env a = sanitize_type env b"
  shows "newTransaction env ids a = newTransaction env ids b"
  using assms by (simp add: newTransaction_def Let_def)

lemma those_Some_set: "those xs = Some ys \<Longrightarrow> set xs = Some ` set ys"
proof (induction xs arbitrary: ys)
  case Nil
  then show ?case by simp
next
  case (Cons x xs)
  then show ?case by (auto split: option.splits)
qed

lemma processed_rows:
  assumes "processAndSetTransactions env parsedTxs s = Inr s'"
    and "t \<in> set (statementTransactions s')"
  shows "\<exists>p. Some p \<in> set parsedTxs \<and>
             t = newTransaction env (set (map rt_id (reconciledTransactions s))) p"
proof -
  from assms(1) obtain txs where th: "those parsedTxs = Some txs"
    and s': "s' = s\<lparr>statementTransactions :=
                   filter (\<lambda>tx. tx_amount tx \<noteq> NaN)
                     (map (newTransaction env (set (map rt_id (reconciledTransactions s)))) txs),
                 isLoading := False\<rparr>"
    by (auto simp: processAndSetTransactions_def split: option.splits)
  from assms(2) s' obtain p where "p \<in> set txs"
    and "t = newTransaction env (set (map rt_id (reconciledTransactions s))) p"
    by auto
  with those_Some_set [OF th] show ?thesis by blast
qed

lemma apply_op_statement:
  "statementTransactions (apply_op opn s) = statementTransactions s \<or>
   (\<exists>ids v. statementTransactions (apply_op opn s) = setStatus ids v (statementTransactions s))"
proof (cases opn)
  case (SaveJournal entry)
  then show ?thesis
    by (auto simp: handleSaveJournal_def Let_def split: option.splits)
next
  case (SaveAiJournal entry txs)
  then show ?thesis by (auto simp: handleSaveAiJournal_def)
next
  case (DeleteJournal c jid)
  then show ?thesis by (auto simp: handleDeleteJournal_def Let_def)
next
  case (PostToCashbook uuid txs)
  then show ?thesis
    by (auto simp: handlePostToCashbook_def split: option.splits prod.splits)
qed

lemma setStatus_same_rows:
  assumes "i < length sts" "j < length sts"
    and "tx_id (sts ! i) = tx_id (sts ! j)"
  shows "tx_id (setStatus ids v sts ! i) = tx_id (sts ! i) \<and>
         (tx_reconciliationStatus (sts ! i) = tx_reconciliationStatus (sts ! j) \<longrightarrow>
            tx_reconciliationStatus (setStatus ids v sts ! i) =
            tx_reconciliationStatus (setStatus ids v sts ! j)) \<and>
         (sts ! i = sts ! j \<longrightarrow> setStatus ids v sts ! i = setStatus ids v sts ! j)"
  using assms by (simp add: nth_setStatus)

lemma apply_op_length:
  "length (statementTransactions (apply_op opn s)) = length (statementTransactions s)"
  using apply_op_statement [of opn s] by (auto simp: length_setStatus)

lemma apply_op_same_rows:
  assumes "i < length (statementTransactions s)" "j < length (statementTransactions s)"
    and "tx_id (statementTransactions s ! i) = tx_id (statementTransactions s ! j)"
  shows "tx_id (statementTransactions (apply_op opn s) ! i) = tx_id (statementTransactions s ! i) \<and>
         (tx_reconciliationStatus (statementTransactions s ! i) =
          tx_reconciliationStatus (statementTransactions s ! j) \<longrightarrow>
            tx_reconciliationStatus (statementTransactions (apply_op opn s) ! i) =
            tx_reconciliationStatus (statementTransactions (apply_op opn s) ! j)) \<and>
         (statementTransactions s ! i = statementTransactions s ! j \<longrightarrow>
            statementTransactions (apply_op opn s) ! i = statementTransactions (apply_op opn s) ! j)"
proof -
  from apply_op_statement [of opn s] consider
    "statementTransactions (apply_op opn s) = statementTransactions s"
    | ids v where "statementTransactions (apply_op opn s) = setStatus ids v (statementTransactions s)"
    by blast
  then show ?thesis
  proof cases
    case 1
    then show ?thesis by simp
  next
    case 2
    show ?thesis unfolding 2 using assms by (rule setStatus_same_rows)
  qed
qed

lemma processed_row_id:
  assumes "processAndSetTransactions env parsedTxs s = Inr s'"
    and "t \<in> set (statementTransactions s')"
  shows "tx_id t = tx_date t @ ''-'' @ tx_description t @ ''-'' @
                   js_String env (JNum (tx_amount t)) @ ''-'' @ type_string (tx_type t)"
proof -
  from processed_rows [OF assms] obtain p where
    "t = newTransaction env (set (map rt_id (reconciledTransactions s))) p" by blast
  then show ?thesis by (simp add: newTransaction_fields make_id_def)
qed

lemma processed_rows_equal:
  assumes "processAndSetTransactions env parsedTxs s = Inr s'"
    and t: "t \<in> set (statementTransactions s')" and u: "u \<in> set (statementTransactions s')"
    and "tx_date t = tx_date u" "tx_description t = tx_description u"
      "tx_amount t = tx_amount u" "tx_type t = tx_type u"
  shows "t = u"
proof -
  from processed_rows [OF assms(1) t] obtain p where
    p: "t = newTransaction env (set (map rt_id (reconciledTransactions s))) p" by blast
  from processed_rows [OF assms(1) u] obtain q where
    q: "u = newTransaction env (set (map rt_id (reconciledTransactions s))) q" by blast
  from assms(4-7) have "sanitize_date env p = sanitize_date env q"
    "sanitize_description env p = sanitize_description env q"
    "sanitize_amount env p = sanitize_amount env q"
    "sanitize_type env p = sanitize_type env q"
    unfolding p q by (simp_all add: newTransaction_fields)
  then show ?thesis unfolding p q by (rule newTransaction_cong)
qed

text \<open>
  C10. The id of a parsed statement transaction is the concatenation
  \<open>date-description-amount-type\<close> of its sanitized fields, so two rows of a processed
  statement with equal date, description, amount and type have the same id; they are even
  equal records. The ticked selection contains both or neither of two rows with one id,
  and every operation that writes links or statuses keeps their ids and gives them the
  same status if they had the same status before.
\<close>

theorem transaction_id_from_fields:
  "tx_id (newTransaction env ids tx) =
     sanitize_date env tx @ ''-'' @ sanitize_description env tx @ ''-'' @
     js_String env (JNum (sanitize_amount env tx)) @ ''-'' @
     (if sanitize_type env tx = Debit then ''debit'' else ''credit'') \<and>
   (processAndSetTransactions env parsedTxs s = Inr s' \<longrightarrow>
      (\<forall>t \<in> set (statementTransactions s').
         tx_id t = tx_date t @ ''-'' @ tx_description t @ ''-'' @
                   js_String env (JNum (tx_amount t)) @ ''-'' @ type_string (tx_type t)) \<and>
      (\<forall>t \<in> set (statementTransactions s'). \<forall>u \<in> set (statementTransactions s').
         tx_date t = tx_date u \<and> tx_description t = tx_description u \<and>
         tx_amount t = tx_amount u \<and> tx_type t = tx_type u \<longrightarrow> tx_id t = tx_id u \<and> t = u)) \<and>
   (\<forall>t \<in> set (statementTransactions s). \<forall>u \<in> set (statementTransactions s).
      tx_id t = tx_id u \<longrightarrow>
      (t \<in> set (selectedTransactions s)) = (u \<in> set (selectedTransactions s))) \<and>
   length (statementTransactions (apply_op opn s)) = length (statementTransactions s) \<and>
   (\<forall>i < length (statementTransactions s). \<forall>j < length (statementTransactions s).
      tx_id (statementTransactions s ! i) = tx_id (statementTransactions s ! j) \<longrightarrow>
      tx_id (statementTransactions (apply_op opn s) ! i) = tx_id (statementTransactions s ! i) \<and>
      (tx_reconciliationStatus (statementTransactions s ! i) =
       tx_reconciliationStatus (statementTransactions s ! j) \<longrightarrow>
         tx_reconciliationStatus (statementTransactions (apply_op opn s) ! i) =
         tx_reconciliationStatus (statementTransactions (apply_op opn s) ! j)) \<and>
      (statementTransactions s ! i = statementTransactions s ! j \<longrightarrow>
         statementTransactions (apply_op opn s) ! i = statementTransactions (apply_op opn s) ! j))"
proof (intro conjI)
  show "tx_id (newTransaction env ids tx) =
     sanitize_date env tx @ ''-'' @ sanitize_description env tx @ ''-'' @
     js_String env (JNum (sanitize_amount env tx)) @ ''-'' @
     (if sanitize_type env tx = Debit then ''debit'' else ''credit'')"
    by (cases "sanitize_type env tx")
       (simp_all add: newTransaction_fields make_id_def type_string_def)
  show "processAndSetTransactions env parsedTxs s = Inr s' \<longrightarrow>
      (\<forall>t \<in> set (statementTransactions s').
         tx_id t = tx_date t @ ''-'' @ tx_description t @ ''-'' @
                   js_String env (JNum (tx_amount t)) @ ''-'' @ type_string (tx_type t)) \<and>
      (\<forall>t \<in> set (statementTransactions s'). \<forall>u \<in> set (statementTransactions s').
         tx_date t = tx_date u \<and> tx_description t = tx_description u \<and>
         tx_amount t = tx_amount u \<and> tx_type t = tx_type u \<longrightarrow> tx_id t = tx_id u \<and> t = u)"
  proof (rule impI, rule conjI)
    assume p: "processAndSetTransactions env parsedTxs s = Inr s'"
    show "\<forall>t \<in> set (statementTransactions s').
         tx_id t = tx_date t @ ''-'' @ tx_description t @ ''-'' @
                   js_String env (JNum (tx_amount t)) @ ''-'' @ type_string (tx_type t)"
      using processed_row_id [OF p] by blast
    show "\<forall>t \<in> set (statementTransactions s'). \<forall>u \<in> set (statementTransactions s').
         tx_date t = tx_date u \<and> tx_description t = tx_description u \<and>
         tx_amount t = tx_amount u \<and> tx_type t = tx_type u \<longrightarrow> tx_id t = tx_id u \<and> t = u"
      using processed_rows_equal [OF p] by blast
  qed
  show "\<forall>t \<in> set (statementTransactions s). \<forall>u \<in> set (statementTransactions s).
      tx_id t = tx_id u \<longrightarrow>
      (t \<in> set (selectedTransactions s)) = (u \<in> set (selectedTransactions s))"
    by (simp add: selectedTransactions_def)
  show "length (statementTransactions (apply_op opn s)) = length (statementTransactions s)"
    by (rule apply_op_length)
  show "\<forall>i < length (statementTransactions s). \<forall>j < length (statementTransactions s).
      tx_id (statementTransactions s ! i) = tx_id (statementTransactions s ! j) \<longrightarrow>
      tx_id (statementTransactions (apply_op opn s) ! i) = tx_id (statementTransactions s ! i) \<and>
      (tx_reconciliationStatus (statementTransactions s ! i) =
       tx_reconciliationStatus (statementTransactions s ! j) \<longrightarrow>
         tx_reconciliationStatus (statementTransactions (apply_op opn s) ! i) =
         tx_reconciliationStatus (statementTransactions (apply_op opn s) ! j)) \<and>
      (statementTransactions s ! i = statementTransactions s ! j \<longrightarrow>
         statementTransactions (apply_op opn s) ! i = statementTransactions (apply_op opn s) ! j)"
    using apply_op_same_rows by blast
qed

lemma process_dup: "processAndSetTransactions env_demo [Some row_pos, Some row_pos] init_state = Inr s_dup"
proof -
  have r: "reconciledTransactions init_state = []" by (simp add: init_state_def)
  have a: "tx_amount tx_pos \<noteq> NaN" by (simp add: tx_pos_def)
  show ?thesis
    by (simp add: processAndSetTransactions_def r newTransaction_row_pos a s_dup_def)
       (simp add: init_state_def)
qed

lemma post_one_of_dup:
  "statementTransactions (handlePostToCashbook uuid_demo [tx_pos] s_dup) =
     setStatus {id_pos} Posted [tx_pos, tx_pos]"
  by (simp add: handlePostToCashbook_def s_dup_def init_state_def DEFAULT_ACCOUNTS_def
      postEach_def newRecon_def)
     (simp add: tx_pos_def)

theorem transaction_id_from_fields_witness:
  "processAndSetTransactions env_demo [Some row_pos, Some row_pos] init_state = Inr s_dup \<and>
   tx_id (newTransaction env_demo {} row_pos) =
     ''2024-07-01'' @ ''-'' @ ''POS purchase'' @ ''-'' @ ''500'' @ ''-'' @ ''debit'' \<and>
   map tx_id (statementTransactions s_dup) = [id_pos, id_pos] \<and>
   statementTransactions s_dup ! 0 = statementTransactions s_dup ! 1 \<and>
   tx_reconciliationStatus
     (statementTransactions (apply_op (PostToCashbook uuid_demo [tx_pos]) s_dup) ! 0) = Some Posted \<and>
   tx_reconciliationStatus
     (statementTransactions (apply_op (PostToCashbook uuid_demo [tx_pos]) s_dup) ! 1) = Some Posted"
proof -
  note t1 = transaction_id_from_fields
      [of env_demo "{}" row_pos "[Some row_pos, Some row_pos]" init_state s_dup
          "PostToCashbook uuid_demo [tx_pos]"]
  note t2 = transaction_id_from_fields
      [of env_demo "{}" row_pos "[]" s_dup s_dup "PostToCashbook uuid_demo [tx_pos]"]
  have st: "statementTransactions s_dup = [tx_pos, tx_pos]"
    by (simp add: s_dup_def)
  have sf: "sanitize_date env_demo row_pos = ''2024-07-01''"
    "sanitize_description env_demo row_pos = ''POS purchase''"
    "sanitize_amount env_demo row_pos = Fin (dbl 500)"
    "js_numToString env_demo (dbl 500) = ''500''"
    by (simp_all add: sanitize_date_def sanitize_description_def sanitize_amount_def
        row_pos_def demo_simps)
  have "truthy (p_debit row_pos)" by (simp add: row_pos_def dbl_simps)
  then have ty: "sanitize_type env_demo row_pos = Debit"
    by (simp add: sanitize_type_def sf dbl_simps)
  from t1 have "tx_id (newTransaction env_demo {} row_pos) =
     sanitize_date env_demo row_pos @ ''-'' @ sanitize_description env_demo row_pos @ ''-'' @
     js_String env_demo (JNum (sanitize_amount env_demo row_pos)) @ ''-'' @
     (if sanitize_type env_demo row_pos = Debit then ''debit'' else ''credit'')"
    by (rule conjunct1)
  then have a: "tx_id (newTransaction env_demo {} row_pos) =
     ''2024-07-01'' @ ''-'' @ ''POS purchase'' @ ''-'' @ ''500'' @ ''-'' @ ''debit''"
    by (simp add: sf ty)
  have p0: "tx_reconciliationStatus
     (statementTransactions (apply_op (PostToCashbook uuid_demo [tx_pos]) s_dup) ! 0) = Some Posted"
    by (simp add: post_one_of_dup) (simp add: setStatus_def tx_pos_def)
  from t2 have "\<forall>i < length (statementTransactions s_dup). \<forall>j < length (statementTransactions s_dup).
      tx_id (statementTransactions s_dup ! i) = tx_id (statementTransactions s_dup ! j) \<longrightarrow>
      (tx_reconciliationStatus (statementTransactions s_dup ! i) =
       tx_reconciliationStatus (statementTransactions s_dup ! j) \<longrightarrow>
         tx_reconciliationStatus
           (statementTransactions (apply_op (PostToCashbook uuid_demo [tx_pos]) s_dup) ! i) =
         tx_reconciliationStatus
           (statementTransactions (apply_op (PostToCashbook uuid_demo [tx_pos]) s_dup) ! j))"
    by blast
  then have "tx_reconciliationStatus
           (statementTransactions (apply_op (PostToCashbook uuid_demo [tx_pos]) s_dup) ! 0) =
         tx_reconciliationStatus
           (statementTransactions (apply_op (PostToCashbook uuid_demo [tx_pos]) s_dup) ! 1)"
    by (simp add: st)
  with p0 have p1: "tx_reconciliationStatus
     (statementTransactions (apply_op (PostToCashbook uuid_demo [tx_pos]) s_dup) ! 1) = Some Posted"
    by simp
  have i: "map tx_id (statementTransactions s_dup) = [id_pos, id_pos]"
    "statementTransactions s_dup ! 0 = statementTransactions s_dup ! 1"
    by (simp_all add: st tx_pos_def)
  from process_dup a i p0 p1 show ?thesis by blast
qed

subsection \<open>Bulk posting\<close>



lemma length_new [simp]:
  "length (newJournalEntries uuid s u txs) = length (unposted txs)"
  "length (newReconciledTxs uuid s txs) = length (unposted txs)"
  by (simp_all add: newJournalEntries_def newReconciledTxs_def)











lemma in_image_eq: "x \<in> f ` A \<longleftrightarrow> (\<exists>y \<in> A. f y = x)"
  by force

lemma status_agrees_iff:
  "status_agrees s \<longleftrightarrow>
     (\<forall>tx \<in> set (statementTransactions s).
        (tx_reconciliationStatus tx = Some Posted) =
        (tx_id tx \<in> rt_id ` set (reconciledTransactions s)))"
  by (simp add: status_agrees_def list_all_iff list_ex_iff in_image_eq)

lemma in_setStatus:
  "t' \<in> set (setStatus ids v sts) \<longleftrightarrow>
     (\<exists>t \<in> set sts. t' = (if tx_id t \<in> ids then t\<lparr>tx_reconciliationStatus := Some v\<rparr> else t))"
  by (auto simp: setStatus_def)

lemma setStatus_Posted_agrees:
  assumes "\<forall>tx \<in> set sts. (tx_reconciliationStatus tx = Some Posted) = (tx_id tx \<in> L)"
  shows "\<forall>tx \<in> set (setStatus ids Posted sts).
           (tx_reconciliationStatus tx = Some Posted) = (tx_id tx \<in> L \<union> ids)"
proof
  fix t'
  assume "t' \<in> set (setStatus ids Posted sts)"
  then obtain t where t: "t \<in> set sts"
    and e: "t' = (if tx_id t \<in> ids then t\<lparr>tx_reconciliationStatus := Some Posted\<rparr> else t)"
    unfolding in_setStatus by blast
  from assms t have a: "(tx_reconciliationStatus t = Some Posted) = (tx_id t \<in> L)" by blast
  show "(tx_reconciliationStatus t' = Some Posted) = (tx_id t' \<in> L \<union> ids)"
  proof (cases "tx_id t \<in> ids")
    case True
    with e show ?thesis by simp
  next
    case False
    with e a show ?thesis by simp
  qed
qed


lemma unposted_subset: "set (unposted txs) \<subseteq> set txs"
  by (auto simp: unposted_def)
















subsection \<open>Status agreement and unique links along the other paths\<close>

text \<open>
  The single-transaction save keeps both properties, the AI save and the processing of a
  statement keep or establish status agreement, and the deletion keeps status agreement as
  long as links are unique. The AI save is the handler that does not keep links unique.
\<close>

lemma save_links_unique:
  assumes "links_unique s"
  shows "links_unique (handleSaveJournal entry s)"
  using assms
  by (auto simp: handleSaveJournal_def Let_def links_unique_def list_ex_iff newRecon_def
      split: option.splits)

lemma save_status_agrees:
  assumes "status_agrees s"
  shows "status_agrees (handleSaveJournal entry s)"
proof -
  from assms have a: "\<forall>tx \<in> set (statementTransactions s).
        (tx_reconciliationStatus tx = Some Posted) =
        (tx_id tx \<in> rt_id ` set (reconciledTransactions s))"
    by (simp add: status_agrees_iff)
  have "\<forall>tx \<in> set (setStatus {x} Posted (statementTransactions s)).
           (tx_reconciliationStatus tx = Some Posted) =
           (tx_id tx \<in> insert x (rt_id ` set (reconciledTransactions s)))" for x
    using setStatus_Posted_agrees [OF a, of "{x}"] by auto
  with a show ?thesis
    unfolding status_agrees_iff
    by (simp add: handleSaveJournal_def Let_def newRecon_def split: option.splits)
qed

lemma ai_save_status_agrees:
  assumes "status_agrees s"
  shows "status_agrees (handleSaveAiJournal entry sourceTxs s)"
proof -
  from assms have a: "\<forall>tx \<in> set (statementTransactions s).
        (tx_reconciliationStatus tx = Some Posted) =
        (tx_id tx \<in> rt_id ` set (reconciledTransactions s))"
    by (simp add: status_agrees_iff)
  have i: "rt_id ` newRecon s (je_id entry) ` set sourceTxs = tx_id ` set sourceTxs"
    by (simp add: image_image newRecon_def)
  from setStatus_Posted_agrees [OF a, of "tx_id ` set sourceTxs"]
  show ?thesis
    unfolding status_agrees_iff
    by (simp add: handleSaveAiJournal_def image_Un i)
qed

lemma process_status_agrees:
  assumes "processAndSetTransactions env parsedTxs s = Inr s'"
  shows "status_agrees s'"
proof -
  from assms have l: "reconciledTransactions s' = reconciledTransactions s"
    by (auto simp: processAndSetTransactions_def split: option.splits)
  show ?thesis
    unfolding status_agrees_iff l
  proof
    fix t
    assume "t \<in> set (statementTransactions s')"
    from processed_rows [OF assms this] obtain p where
      "t = newTransaction env (set (map rt_id (reconciledTransactions s))) p" by blast
    then show "(tx_reconciliationStatus t = Some Posted) =
                 (tx_id t \<in> rt_id ` set (reconciledTransactions s))"
      by (simp add: newTransaction_fields)
  qed
qed

lemma delete_links_unique:
  assumes "links_unique s"
  shows "links_unique (handleDeleteJournal confirmed jid s)"
proof (cases confirmed)
  case True
  with assms show ?thesis
    by (simp add: links_unique_def delete_links distinct_map_filter)
next
  case False
  with assms show ?thesis by (simp add: handleDeleteJournal_def)
qed

lemma unique_link_of_id:
  assumes "distinct (map rt_id rs)" "r1 \<in> set rs" "r2 \<in> set rs" "rt_id r1 = rt_id r2"
  shows "r1 = r2"
  using assms by (meson distinct_map inj_onD)

lemma delete_status_agrees:
  assumes lu: "links_unique s" and ag: "status_agrees s"
  shows "status_agrees (handleDeleteJournal confirmed jid s)"
proof (cases confirmed)
  case False
  with ag show ?thesis by (simp add: handleDeleteJournal_def)
next
  case True
  let ?D = "rt_id ` {rt \<in> set (reconciledTransactions s). rt_journalEntryId rt = jid}"
  let ?L' = "filter (\<lambda>rt. rt_journalEntryId rt \<noteq> jid) (reconciledTransactions s)"
  from lu have d: "distinct (map rt_id (reconciledTransactions s))"
    by (simp add: links_unique_def)
  have split: "\<And>x. x \<in> rt_id ` set ?L' \<longleftrightarrow>
                  x \<in> rt_id ` set (reconciledTransactions s) \<and> x \<notin> ?D"
  proof
    fix x
    assume "x \<in> rt_id ` set ?L'"
    then obtain r where r: "r \<in> set (reconciledTransactions s)" "rt_journalEntryId r \<noteq> jid"
      "rt_id r = x" by auto
    have "x \<notin> ?D"
    proof
      assume "x \<in> ?D"
      then obtain r' where r': "r' \<in> set (reconciledTransactions s)"
        "rt_journalEntryId r' = jid" "rt_id r' = x" by auto
      with r have "r = r'" using unique_link_of_id [OF d] by metis
      with r r' show False by simp
    qed
    with r show "x \<in> rt_id ` set (reconciledTransactions s) \<and> x \<notin> ?D" by blast
  next
    fix x
    assume "x \<in> rt_id ` set (reconciledTransactions s) \<and> x \<notin> ?D"
    then obtain r where r: "r \<in> set (reconciledTransactions s)" "rt_id r = x" and n: "x \<notin> ?D"
      by auto
    from r n have "rt_journalEntryId r \<noteq> jid" by (auto simp: in_image_eq)
    with r show "x \<in> rt_id ` set ?L'" by (auto simp: in_image_eq)
  qed
  have "\<forall>t' \<in> set (setStatus ?D Unposted (statementTransactions s)).
          (tx_reconciliationStatus t' = Some Posted) = (tx_id t' \<in> rt_id ` set ?L')"
  proof
    fix t'
    assume "t' \<in> set (setStatus ?D Unposted (statementTransactions s))"
    then obtain t where t: "t \<in> set (statementTransactions s)"
      and e: "t' = (if tx_id t \<in> ?D then t\<lparr>tx_reconciliationStatus := Some Unposted\<rparr> else t)"
      unfolding in_setStatus by blast
    from ag t have a: "(tx_reconciliationStatus t = Some Posted) =
        (tx_id t \<in> rt_id ` set (reconciledTransactions s))"
      unfolding status_agrees_iff by blast
    show "(tx_reconciliationStatus t' = Some Posted) = (tx_id t' \<in> rt_id ` set ?L')"
    proof (cases "tx_id t \<in> ?D")
      case True
      with e have "tx_reconciliationStatus t' = Some Unposted" "tx_id t' = tx_id t" by simp_all
      with True show ?thesis unfolding split by simp
    next
      case False
      with e have "t' = t" by simp
      with False a show ?thesis unfolding split by simp
    qed
  qed
  moreover from True have "confirmed = True" by simp
  ultimately show ?thesis
    by (simp only: status_agrees_iff delete_links delete_statement)
qed

end
